theory Spec2Isabelle
  imports Main "HOL-Library.Word" "HOL-Library.Signed_Division"
begin

unbundle bit_operations_syntax

section \<open>vwifi: a virtual cfg80211 driver (src/vwifi.c)\<close>

text \<open>
  The driver is modelled as pure functions over explicit state. Machine integers are
  words of the width the C code gives them; fixed-size C arrays are byte lists of that
  length; a write or read outside an object, a null dereference and a division by zero
  are values of the type \<open>error\<close>, never silent. What the kernel decides (whether an
  allocation succeeds, whether a mutex wait is interrupted, the random numbers, the
  clock, the signedness of \<open>char\<close>) is an input of the model.
\<close>

subsection \<open>Machine types and constants\<close>

type_synonym u8 = "8 word"
type_synonym u16 = "16 word"
type_synonym u32 = "32 word"
type_synonym s32 = "32 word"
type_synonym u64 = "64 word"

text \<open>\<^verbatim>\<open>#define SSID_MAX_LENGTH 32\<close>; \<open>ETH_ALEN\<close> and \<open>ETH_DATA_LEN\<close> are the
  kernel's (\<^verbatim>\<open>include/uapi/linux/if_ether.h\<close>: 6 and 1500).\<close>

definition SSID_MAX_LENGTH :: nat where
  "SSID_MAX_LENGTH = 32"

definition ETH_ALEN :: nat where
  "ETH_ALEN = 6"

definition ETH_DATA_LEN :: nat where
  "ETH_DATA_LEN = 1500"

datatype error =
    Out_of_bounds        \<comment> \<open>an access outside the object pointed into\<close>
  | Null_dereference     \<comment> \<open>a write through a pointer that a failed allocation returned\<close>
  | Bad_list_entry       \<comment> \<open>\<open>list_first_entry\<close> or \<open>list_last_entry\<close> on an empty list\<close>
  | Division_by_zero     \<comment> \<open>\<open>%\<close> by zero, or \<open>INT_MIN % -1\<close>\<close>
  | No_such_device       \<comment> \<open>only in the model: a position that is not in the interface list\<close>

subsection \<open>C strings and buffers\<close>

text \<open>
  A \<^verbatim>\<open>char\<close> buffer is the list of its bytes. \<open>c_str\<close> is the C string it holds: the
  bytes before the first zero byte. A buffer holds a string only if it has a zero byte
  (\<open>terminated\<close>); \<^verbatim>\<open>strlen\<close>, \<^verbatim>\<open>strcmp\<close> and the hash loop would run past the end of one
  that has none.
\<close>

definition c_str :: "u8 list \<Rightarrow> u8 list" where
  "c_str buf = takeWhile (\<lambda>c. c \<noteq> 0) buf"

definition terminated :: "u8 list \<Rightarrow> bool" where
  "terminated buf = (0 \<in> set buf)"

text \<open>
  \<^verbatim>\<open>strcmp(a, b) == 0\<close> and \<^verbatim>\<open>strncmp(a, b, n) == 0\<close>: the two strings are equal,
  respectively equal in their first \<open>n\<close> characters.
\<close>

definition strcmp_eq :: "u8 list \<Rightarrow> u8 list \<Rightarrow> bool" where
  "strcmp_eq a b = (c_str a = c_str b)"

definition strncmp_eq :: "u8 list \<Rightarrow> u8 list \<Rightarrow> nat \<Rightarrow> bool" where
  "strncmp_eq a b n = (take n (c_str a) = take n (c_str b))"

text \<open>\<^verbatim>\<open>memcpy(dst, src, n)\<close>: \<open>n\<close> bytes of \<open>src\<close> over the first \<open>n\<close> bytes of \<open>dst\<close>.\<close>

definition memcpy :: "u8 list \<Rightarrow> u8 list \<Rightarrow> nat \<Rightarrow> error + u8 list" where
  "memcpy dst src n =
     (if n \<le> length dst \<and> n \<le> length src then Inr (take n src @ drop n dst)
      else Inl Out_of_bounds)"

text \<open>\<^verbatim>\<open>buf[i] = v\<close>.\<close>

definition store_byte :: "u8 list \<Rightarrow> nat \<Rightarrow> u8 \<Rightarrow> error + u8 list" where
  "store_byte buf i v = (if i < length buf then Inr (buf[i := v]) else Inl Out_of_bounds)"

text \<open>
  \<^verbatim>\<open>strncpy(dst, src, n)\<close> writes exactly \<open>n\<close> bytes: the string at \<open>src\<close>, cut at \<open>n\<close>
  bytes or padded with zero bytes up to \<open>n\<close>. \<open>src\<close> is the memory from the source
  pointer on.
\<close>

definition strncpy :: "u8 list \<Rightarrow> u8 list \<Rightarrow> nat \<Rightarrow> error + u8 list" where
  "strncpy dst src n =
     (if n \<le> length dst
      then Inr (take n (c_str src @ replicate n 0) @ drop n dst)
      else Inl Out_of_bounds)"

text \<open>\<^verbatim>\<open>strspn(s, "[]")\<close> and \<^verbatim>\<open>strcspn(s, "[]")\<close>, \<open>s\<close> being the memory from the
  pointer on: the length of the longest prefix made of, respectively free of, the two
  delimiters \<^verbatim>\<open>[\<close> (0x5B) and \<^verbatim>\<open>]\<close> (0x5D). Both stop at the terminating zero byte.\<close>

definition is_delim :: "u8 \<Rightarrow> bool" where
  "is_delim c = (c = 0x5B \<or> c = 0x5D)"

definition strspn_delims :: "u8 list \<Rightarrow> nat" where
  "strspn_delims s = length (takeWhile (\<lambda>c. c \<noteq> 0 \<and> is_delim c) s)"

definition strcspn_delims :: "u8 list \<Rightarrow> nat" where
  "strcspn_delims s = length (takeWhile (\<lambda>c. c \<noteq> 0 \<and> \<not> is_delim c) s)"

subsection \<open>\<open>rand_int\<close>\<close>

text \<open>
  \<^verbatim>\<open>
  static s32 rand_int(s32 low, s32 up)
  {
      s32 result = (s32) get_random_u32();
      result %= (up - low + 1);
      result = abs(result);
      result += low;
      return result;
  }
  \<close>
  The value \<open>r\<close> is what \<open>get_random_u32\<close> returned. C's \<open>%\<close> truncates towards zero
  (\<open>smod\<close> on the signed values); the kernel is built with wrapping signed arithmetic,
  so \<open>+\<close> and \<open>-\<close> are those of the 32-bit word.
\<close>

definition c_abs :: "s32 \<Rightarrow> s32" where
  "c_abs x = (if sint x < 0 then - x else x)"

definition rand_int :: "u32 \<Rightarrow> s32 \<Rightarrow> s32 \<Rightarrow> error + s32" where
  "rand_int r low up =
     (let result = r;
          m = up - low + 1
      in if m = 0 \<or> (sint result = - (2 ^ 31) \<and> sint m = - 1) then Inl Division_by_zero
         else
           let result = word_of_int (sint result smod sint m);
               result = c_abs result;
               result = result + low
           in Inr result)"

subsection \<open>The string hash and the BSSID derivation\<close>

text \<open>
  \<^verbatim>\<open>
  static inline uint64_t murmurhash(const char *str)
  {
      uint64_t h = 525201411107845655ull;
      for (; *str; ++str) {
          h ^= *str;
          h *= 0x5bd1e9955bd1e995;
          h ^= h >> 47;
      }
      return h;
  }
  \<close>
  \<open>*str\<close> is a \<^verbatim>\<open>char\<close>, converted to 64 bits before the xor: zero-extended where
  \<^verbatim>\<open>char\<close> is unsigned (every kernel from Linux 6.2 on, and arm before), sign-extended
  where it is signed (x86 before 6.2). The flag \<open>sc\<close> (\<^verbatim>\<open>char\<close> is signed) is an input of
  the model. The list is the memory from \<open>str\<close> on; the loop stops at the first zero
  byte.
\<close>

definition char_to_u64 :: "bool \<Rightarrow> u8 \<Rightarrow> u64" where
  "char_to_u64 sc c = (if sc then scast c else ucast c)"

definition murmur_step :: "bool \<Rightarrow> u64 \<Rightarrow> u8 \<Rightarrow> u64" where
  "murmur_step sc h c =
     (let h = h XOR char_to_u64 sc c;
          h = h * 0x5bd1e9955bd1e995
      in h XOR drop_bit 47 h)"

fun murmur_loop :: "bool \<Rightarrow> u64 \<Rightarrow> u8 list \<Rightarrow> u64" where
  "murmur_loop sc h [] = h"
| "murmur_loop sc h (c # str) = (if c = 0 then h else murmur_loop sc (murmur_step sc h c) str)"

definition murmurhash :: "bool \<Rightarrow> u8 list \<Rightarrow> u64" where
  "murmurhash sc str = murmur_loop sc 525201411107845655 str"

text \<open>
  \<open>u64_to_ether_addr\<close> is the kernel's (\<^verbatim>\<open>include/linux/etherdevice.h\<close>):
  \<^verbatim>\<open>
  static inline void u64_to_ether_addr(u64 u, u8 *addr)
  {
      int i;
      for (i = ETH_ALEN - 1; i >= 0; i--) {
          addr[i] = u & 0xff;
          u = u >> 8;
      }
  }
  \<close>
  It fills \<open>addr[5]\<close> first, with the lowest byte of \<open>u\<close>, and \<open>addr[0]\<close> last, with
  bits 40 to 47. \<open>etheraddr_loop n u addr\<close> runs the loop for \<open>i = n - 1\<close> down to 0.
\<close>

fun etheraddr_loop :: "nat \<Rightarrow> u64 \<Rightarrow> u8 list \<Rightarrow> u8 list" where
  "etheraddr_loop 0 u addr = addr"
| "etheraddr_loop (Suc i) u addr = etheraddr_loop i (drop_bit 8 u) (addr[i := ucast (u AND 0xff)])"

definition u64_to_ether_addr :: "u64 \<Rightarrow> u8 list \<Rightarrow> error + u8 list" where
  "u64_to_ether_addr u addr =
     (if ETH_ALEN \<le> length addr then Inr (etheraddr_loop ETH_ALEN u addr) else Inl Out_of_bounds)"

text \<open>
  \<^verbatim>\<open>
  static void generate_bssid_with_ssid(u8 *result, const char *ssid)
  {
      u64_to_ether_addr(murmurhash(ssid), result);
      result[0] &= 0xfe; /* clear multicast bit */
      result[0] |= 0x02; /* set local assignment bit */
  }
  \<close>
  \<open>result\<close> is an in-out buffer: the model takes its old contents and returns the new.
\<close>

definition generate_bssid_with_ssid :: "bool \<Rightarrow> u8 list \<Rightarrow> u8 list \<Rightarrow> error + u8 list" where
  "generate_bssid_with_ssid sc result ssid =
     (case u64_to_ether_addr (murmurhash sc ssid) result of
        Inl e \<Rightarrow> Inl e
      | Inr result \<Rightarrow>
          let result = result[0 := (result ! 0) AND 0xfe];
              result = result[0 := (result ! 0) OR 0x02]
          in Inr result)"

subsection \<open>The kernel as an input\<close>

text \<open>
  What the driver cannot decide is read from a \<open>kernel\<close>: the signedness of
  \<^verbatim>\<open>char\<close>, the outcome of the \<open>k\<close>-th allocation (\<open>kmalloc\<close>, \<open>kzalloc\<close>,
  \<open>dev_alloc_skb\<close>), the \<open>k\<close>-th value of \<open>get_random_u32\<close>, the \<open>k\<close>-th reading of
  \<open>ktime_get_boottime_ns\<close>, and the bytes found in memory that \<open>kmalloc\<close> returns
  uninitialised. The state counts how many of each were consumed.
\<close>

record kernel =
  char_signed :: bool
  alloc_ok :: "nat \<Rightarrow> bool"
  random_u32 :: "nat \<Rightarrow> u32"
  boottime_ns :: "nat \<Rightarrow> u64"
  uninit :: "nat \<Rightarrow> u8"

subsection \<open>Data model\<close>

text \<open>
  \<^verbatim>\<open>
  struct ap_info_entry_t {
      struct hlist_node node;
      u8 bssid[ETH_ALEN];
      char ssid[SSID_MAX_LENGTH];
  };
  \<close>
  The \<open>node\<close> is the entry's place in its bucket.
\<close>

record ap_info_entry_t =
  bssid :: "u8 list"
  ssid :: "u8 list"

text \<open>
  \<^verbatim>\<open>
  struct owl_packet {
      int datalen;
      u8 data[ETH_DATA_LEN];
      struct list_head list;
  };
  \<close>
\<close>

record owl_packet =
  datalen :: s32
  data :: "u8 list"

text \<open>The five counters of \<open>struct net_device_stats\<close> that the driver touches
  (\<^verbatim>\<open>unsigned long\<close>, 64 bits).\<close>

record net_device_stats =
  rx_packets :: u64
  tx_packets :: u64
  rx_bytes :: u64
  tx_bytes :: u64
  rx_dropped :: u64

text \<open>
  \<open>struct owl_ndev_priv_context\<close>: \<open>ndev\<close> is the identity of the interface's
  \<open>net_device\<close> (the pointer), \<open>rx_queue\<close> the list of received packets, head first.
\<close>

record owl_ndev_priv_context =
  ndev :: nat
  stats :: net_device_stats
  rx_queue :: "owl_packet list"

text \<open>What the driver hands to the host stack, in the order of the calls.\<close>

record bss_report =
  chan_center_freq :: nat
  scan_width_mhz :: nat
  signal :: s32
  report_bssid :: "u8 list"
  tsf :: u64
  capability :: u16
  beacon_interval :: u16
  ie :: "u8 list"

datatype timeout_reason = NL80211_TIMEOUT_UNSPECIFIED | NL80211_TIMEOUT_SCAN
  | NL80211_TIMEOUT_AUTH | NL80211_TIMEOUT_ASSOC

datatype upcall =
    Inform_bss bss_report
      \<comment> \<open>\<open>cfg80211_inform_bss_data\<close>\<close>
  | Scan_done "nat option" bool
      \<comment> \<open>\<open>cfg80211_scan_done(request, info)\<close>: the request, \<open>info.aborted\<close>\<close>
  | Connect_result nat "u8 list option" "u8 list" "u8 list" u16
      \<comment> \<open>\<open>cfg80211_connect_result(dev, bssid, req_ie, resp_ie, status)\<close>\<close>
  | Connect_timeout nat "u8 list option" "u8 list" timeout_reason
      \<comment> \<open>\<open>cfg80211_connect_timeout(dev, bssid, req_ie, reason)\<close>\<close>
  | Disconnected nat u16 "u8 list" bool
      \<comment> \<open>\<open>cfg80211_disconnected(dev, reason, ie, locally_generated)\<close>\<close>
  | Netif_rx nat "u8 list"
      \<comment> \<open>\<open>netif_rx(skb)\<close>: \<open>skb->dev\<close> and the bytes put into the buffer\<close>

datatype log_line =
    Alloc_ap_failed "u8 list"   \<comment> \<open>"Failed to alloc ap_info_entry_t incomming SSID=%s"\<close>
  | Rx_queue_empty              \<comment> \<open>"owl rx: No packet in rx_queue"\<close>
  | Rx_low_on_mem               \<comment> \<open>"owl rx: low on mem - packet dropped"\<close>
  | Tx_out_of_memory            \<comment> \<open>"Ran out of memory allocating packet pool"\<close>

text \<open>
  The whole driver state: the module parameter \<open>ssid_list\<close> (the memory of the string,
  terminator included), the static \<open>ssid_table\<close> (16 buckets, each a list, head first),
  the fields of the one \<open>struct owl_context\<close> (\<open>lock\<close>: the mutex is held;
  \<open>scan_request\<close>: the pointer, \<open>None\<close> for \<open>NULL\<close>; \<open>ws_\<close>...: the work item is
  pending), the upcalls and log lines so far, and the kernel counters.
\<close>

record vwifi =
  ssid_list :: "u8 list"
  ssid_table :: "ap_info_entry_t list list"
  lock :: bool
  connecting_ssid :: "u8 list"
  connecting_bssid :: "u8 list"
  disconnect_reason_code :: u16
  scan_request :: "nat option"
  netintf_list :: "owl_ndev_priv_context list"
  ws_connect :: bool
  ws_disconnect :: bool
  ws_scan :: bool
  ws_scan_timeout :: bool
  upcalls :: "upcall list"
  klog :: "log_line list"
  n_alloc :: nat
  n_random :: nat
  n_clock :: nat

subsection \<open>The AP table\<close>

text \<open>
  \<^verbatim>\<open>static DECLARE_HASHTABLE(ssid_table, 4);\<close> The key is a \<open>u32\<close>, so the bucket is
  the kernel's \<open>hash_32(key, 4)\<close> (\<^verbatim>\<open>include/linux/hash.h\<close>): the top 4 bits of
  \<open>key * 0x61C88647\<close>. \<open>hash_add\<close> puts the entry at the head of its bucket;
  \<open>hash_for_each_possible_safe\<close> walks one bucket, \<open>hash_for_each_safe\<close> the
  buckets 0 to 15 in order.
\<close>

definition hash_min :: "u32 \<Rightarrow> nat" where
  "hash_min key = unat (drop_bit 28 (key * 0x61C88647))"

definition hash_bucket :: "ap_info_entry_t list list \<Rightarrow> u32 \<Rightarrow> ap_info_entry_t list" where
  "hash_bucket tbl key = tbl ! hash_min key"

definition hash_add :: "ap_info_entry_t list list \<Rightarrow> ap_info_entry_t \<Rightarrow> u32 \<Rightarrow> ap_info_entry_t list list" where
  "hash_add tbl ap key = tbl[hash_min key := ap # tbl ! hash_min key]"

definition hash_empty :: "ap_info_entry_t list list \<Rightarrow> bool" where
  "hash_empty tbl = (\<forall>b \<in> set tbl. b = [])"

definition hash_entries :: "ap_info_entry_t list list \<Rightarrow> ap_info_entry_t list" where
  "hash_entries tbl = concat tbl"

text \<open>
  \<^verbatim>\<open>
  static void update_ssids(const char *ssid_list)
  {
      struct ap_info_entry_t *ap;
      const char delims[] = "[]";
      struct hlist_node *tmp;

      for (char *s = (char *) ssid_list; *s != 0; /*empty*/) {
          bool ssid_exist = false;
          char token[SSID_MAX_LENGTH] = {0};
          size_t n = strspn(s, delims);
          s += n;
          n = strcspn(s, delims);
          if (n == 0)  // token not found
              continue;
          strncpy(token, s, n);
          s += n;
          token[n] = '\0';
          u32 key = murmurhash((char *) token);
          hash_for_each_possible_safe (ssid_table, ap, tmp, node, key) {
              if (strncmp(token, ap->ssid, n) == 0) {
                  ssid_exist = true;
                  break;
              }
          }
          if (ssid_exist)  // SSID exist
              continue;
          ap = kzalloc(sizeof(struct ap_info_entry_t), GFP_KERNEL);
          if (!ap) {
              pr_err("Failed to alloc ap_info_entry_t incomming SSID=%s\n",
                     token);
              return;
          }
          u8 bssid[ETH_ALEN] = {0};
          strncpy(ap->ssid, token, n);
          generate_bssid_with_ssid(bssid, token);
          memcpy(ap->bssid, bssid, ETH_ALEN);
          hash_add(ssid_table, &ap->node, key);
      }
  }
  \<close>
  The loop is a recursion on \<open>s\<close>, the memory from the pointer on. Its body, entered
  when \<open>*s != 0\<close>, is \<open>update_ssids_body\<close>: each \<^verbatim>\<open>continue\<close>, and the end of the
  body, is \<open>Continue\<close> with the new \<open>s\<close> and state; the \<^verbatim>\<open>return\<close> is \<open>Return\<close>.
  Each write into \<open>token\<close> is checked against its 32 bytes.
\<close>

datatype loop_flow = Continue "u8 list" vwifi | Return vwifi

definition flow_state :: "loop_flow \<Rightarrow> vwifi" where
  "flow_state r = (case r of Continue s st \<Rightarrow> st | Return st \<Rightarrow> st)"

definition update_ssids_body :: "kernel \<Rightarrow> u8 list \<Rightarrow> vwifi \<Rightarrow> error + loop_flow" where
  "update_ssids_body K s st =
     (let token = replicate SSID_MAX_LENGTH 0;
          n = strspn_delims s;
          s = drop n s;
          n = strcspn_delims s
      in if n = 0 then Inr (Continue s st)
         else
           case strncpy token s n of Inl e \<Rightarrow> Inl e | Inr token \<Rightarrow>
           let s = drop n s in
           case store_byte token n 0 of Inl e \<Rightarrow> Inl e | Inr token \<Rightarrow>
           let key = (ucast (murmurhash (char_signed K) token) :: u32);
               ssid_exist = list_ex (\<lambda>ap. strncmp_eq token (ssid ap) n)
                              (hash_bucket (ssid_table st) key)
           in if ssid_exist then Inr (Continue s st)
              else if \<not> alloc_ok K (n_alloc st)
              then Inr (Return (st\<lparr>n_alloc := Suc (n_alloc st),
                                    klog := klog st @ [Alloc_ap_failed (c_str token)]\<rparr>))
              else
                let st = st\<lparr>n_alloc := Suc (n_alloc st)\<rparr>;
                    ap = \<lparr>bssid = replicate ETH_ALEN 0, ssid = replicate SSID_MAX_LENGTH 0\<rparr>;
                    bssid0 = replicate ETH_ALEN 0
                in case strncpy (ssid ap) token n of Inl e \<Rightarrow> Inl e | Inr ap_ssid \<Rightarrow>
                   case generate_bssid_with_ssid (char_signed K) bssid0 token of
                     Inl e \<Rightarrow> Inl e
                   | Inr bssid1 \<Rightarrow>
                   case memcpy (bssid ap) bssid1 ETH_ALEN of Inl e \<Rightarrow> Inl e | Inr ap_bssid \<Rightarrow>
                     Inr (Continue s
                       (st\<lparr>ssid_table :=
                             hash_add (ssid_table st) \<lparr>bssid = ap_bssid, ssid = ap_ssid\<rparr> key\<rparr>)))"

lemma strspn_progress:
  "s \<noteq> [] \<Longrightarrow> hd s \<noteq> 0 \<Longrightarrow> strcspn_delims (drop (strspn_delims s) s) = 0
   \<Longrightarrow> 0 < strspn_delims s"
  by (cases s) (auto simp: strspn_delims_def strcspn_delims_def split: if_splits)

lemma update_ssids_body_progress:
  assumes "s \<noteq> []" "hd s \<noteq> 0" "update_ssids_body K s st = Inr (Continue s' st')"
  shows "length s' < length s"
proof -
  let ?s1 = "drop (strspn_delims s) s"
  let ?n = "strcspn_delims ?s1"
  show ?thesis
  proof (cases "?n = 0")
    case True
    with assms(3) have "s' = ?s1"
      by (simp add: update_ssids_body_def Let_def)
    with strspn_progress [OF assms(1,2) True] assms(1) show ?thesis by simp
  next
    case False
    with assms(3) have "s' = drop ?n ?s1"
      by (auto simp: update_ssids_body_def Let_def split: sum.splits if_splits)
    moreover have "?n \<le> length ?s1"
      unfolding strcspn_delims_def by (rule length_takeWhile_le)
    ultimately show ?thesis using False assms(1) by simp
  qed
qed

function update_ssids_loop :: "kernel \<Rightarrow> u8 list \<Rightarrow> vwifi \<Rightarrow> error + vwifi" where
  "update_ssids_loop K s st =
     (if s = [] \<or> hd s = 0 then Inr st
      else case update_ssids_body K s st of
             Inl e \<Rightarrow> Inl e
           | Inr (Return st') \<Rightarrow> Inr st'
           | Inr (Continue s' st') \<Rightarrow> update_ssids_loop K s' st')"
  by pat_completeness auto
termination
  by (relation "measure (\<lambda>(K, s, st). length s)") (auto dest: update_ssids_body_progress)

definition update_ssids :: "kernel \<Rightarrow> u8 list \<Rightarrow> vwifi \<Rightarrow> error + vwifi" where
  "update_ssids K ssid_list_arg st = update_ssids_loop K ssid_list_arg st"

subsection \<open>Scan completion\<close>

text \<open>
  \<^verbatim>\<open>
  static void inform_dummy_bss(struct owl_context *owl)
  {
      ...
      update_ssids(ssid_list);
      if (hash_empty(ssid_table))
          return;
      hash_for_each_safe (ssid_table, i, tmp, ap, node) {
          struct cfg80211_bss *bss = NULL;
          struct cfg80211_inform_bss data = {
              .chan = &owl->wiphy->bands[NL80211_BAND_2GHZ]->channels[0],
              .scan_width = NL80211_BSS_CHAN_WIDTH_20,
              .signal = rand_int(-100, -30) * 100,
          };
          size_t ssid_len = strlen(ap->ssid);
          u8 *ie = kmalloc((ssid_len + 3) * sizeof(ie), GFP_KERNEL);
          ie[0] = WLAN_EID_SSID;
          ie[1] = ssid_len;
          memcpy(ie + 2, ap->ssid, ssid_len);
          u64 tsf = div_u64(ktime_get_boottime_ns(), 1000);
          bss = cfg80211_inform_bss_data(
              owl->wiphy, &data, CFG80211_BSS_FTYPE_UNKNOWN, ap->bssid, tsf,
              WLAN_CAPABILITY_ESS, 100, ie, ssid_len + 2, GFP_KERNEL);
          cfg80211_put_bss(owl->wiphy, bss);
          kfree(ie);
      }
  }
  \<close>
  The only channel has \<open>center_freq = 2437\<close>. The result of \<open>kmalloc\<close> is not checked:
  when it fails, \<open>ie[0] = ...\<close> writes through a null pointer.
\<close>

definition WLAN_EID_SSID :: u8 where
  "WLAN_EID_SSID = 0"

definition WLAN_CAPABILITY_ESS :: u16 where
  "WLAN_CAPABILITY_ESS = 1"

fun inform_bss_loop :: "kernel \<Rightarrow> ap_info_entry_t list \<Rightarrow> vwifi \<Rightarrow> error + vwifi" where
  "inform_bss_loop K [] st = Inr st"
| "inform_bss_loop K (ap # aps) st =
     (case rand_int (random_u32 K (n_random st)) (- 100) (- 30) of
        Inl e \<Rightarrow> Inl e
      | Inr r \<Rightarrow>
          let st = st\<lparr>n_random := Suc (n_random st)\<rparr>;
              sig = r * 100
          in if \<not> terminated (ssid ap) then Inl Out_of_bounds
             else
               let ssid_len = length (c_str (ssid ap));
                   ie_ok = alloc_ok K (n_alloc st);
                   st = st\<lparr>n_alloc := Suc (n_alloc st)\<rparr>
               in if \<not> ie_ok then Inl Null_dereference
                  else
                    let ie_bytes = [WLAN_EID_SSID, of_nat ssid_len] @ take ssid_len (ssid ap);
                        t = boottime_ns K (n_clock st) div 1000;
                        st = st\<lparr>n_clock := Suc (n_clock st)\<rparr>;
                        st = st\<lparr>upcalls := upcalls st @
                               [Inform_bss \<lparr>chan_center_freq = 2437, scan_width_mhz = 20,
                                  signal = sig, report_bssid = bssid ap, tsf = t,
                                  capability = WLAN_CAPABILITY_ESS, beacon_interval = 100,
                                  ie = ie_bytes\<rparr>]\<rparr>
                    in inform_bss_loop K aps st)"

definition inform_dummy_bss :: "kernel \<Rightarrow> vwifi \<Rightarrow> error + vwifi" where
  "inform_dummy_bss K st =
     (case update_ssids K (ssid_list st) st of
        Inl e \<Rightarrow> Inl e
      | Inr st \<Rightarrow>
          if hash_empty (ssid_table st) then Inr st
          else inform_bss_loop K (hash_entries (ssid_table st)) st)"

text \<open>
  \<^verbatim>\<open>
  static void owl_scan_timeout_work(struct work_struct *w)
  {
      struct owl_context *owl = container_of(w, struct owl_context, ws_scan_timeout);
      struct cfg80211_scan_info info = { .aborted = false, };
      inform_dummy_bss(owl);
      if (mutex_lock_interruptible(&owl->lock))
          return;
      cfg80211_scan_done(owl->scan_request, &info);
      owl->scan_request = NULL;
      mutex_unlock(&owl->lock);
  }
  \<close>
  \<open>interrupted\<close>: the wait for the mutex was interrupted by a signal.
\<close>

definition owl_scan_timeout_work :: "kernel \<Rightarrow> bool \<Rightarrow> vwifi \<Rightarrow> error + vwifi" where
  "owl_scan_timeout_work K interrupted st =
     (case inform_dummy_bss K st of
        Inl e \<Rightarrow> Inl e
      | Inr st \<Rightarrow>
          if interrupted then Inr st
          else
            let st = st\<lparr>lock := True\<rparr>;
                st = st\<lparr>upcalls := upcalls st @ [Scan_done (scan_request st) False]\<rparr>;
                st = st\<lparr>scan_request := None\<rparr>
            in Inr (st\<lparr>lock := False\<rparr>))"

subsection \<open>Work items and return codes\<close>

text \<open>\<open>schedule_work\<close> on a work item whose pending bit is \<open>pending\<close>: it returns whether
  it queued the item (it does not when the item is pending already), and the bit is set
  afterwards.\<close>

definition schedule_work :: "bool \<Rightarrow> bool \<times> bool" where
  "schedule_work pending = (\<not> pending, True)"

definition ERESTARTSYS :: int where
  "ERESTARTSYS = 512"

definition EBUSY :: int where
  "EBUSY = 16"

definition WLAN_STATUS_SUCCESS :: u16 where
  "WLAN_STATUS_SUCCESS = 0"

datatype netdev_tx = NETDEV_TX_OK | NETDEV_TX_BUSY

definition list_first_entry :: "'a list \<Rightarrow> error + 'a" where
  "list_first_entry l = (case l of [] \<Rightarrow> Inl Bad_list_entry | x # _ \<Rightarrow> Inr x)"

subsection \<open>Connect\<close>

text \<open>
  \<^verbatim>\<open>
  static bool is_valid_ssid(const char *connecting_ssid)
  {
      bool is_valid = false;
      ...
      u32 key = murmurhash((char *) connecting_ssid);
      hash_for_each_possible_safe (ssid_table, ap, tmp, node, key) {
          if (!strcmp(connecting_ssid, ap->ssid)) {
              is_valid = true;
              break;
          }
      }
      return is_valid;
  }
  \<close>
\<close>

definition is_valid_ssid :: "kernel \<Rightarrow> ap_info_entry_t list list \<Rightarrow> u8 list \<Rightarrow> bool" where
  "is_valid_ssid K tbl cssid =
     (let key = (ucast (murmurhash (char_signed K) cssid) :: u32)
      in list_ex (\<lambda>ap. strcmp_eq cssid (ssid ap)) (hash_bucket tbl key))"

text \<open>
  \<^verbatim>\<open>
  static void get_connecting_bssid(const char *connecting_ssid, u8 *connecting_bssid)
  {
      ...
      u32 key = murmurhash((char *) connecting_ssid);
      hash_for_each_possible_safe (ssid_table, ap, tmp, node, key) {
          if (!strcmp(connecting_ssid, ap->ssid)) {
              memcpy(connecting_bssid, ap->bssid, ETH_ALEN);
              break;
          }
      }
  }
  \<close>
\<close>

definition get_connecting_bssid ::
  "kernel \<Rightarrow> ap_info_entry_t list list \<Rightarrow> u8 list \<Rightarrow> u8 list \<Rightarrow> error + u8 list" where
  "get_connecting_bssid K tbl cssid cbssid =
     (let key = (ucast (murmurhash (char_signed K) cssid) :: u32)
      in case find (\<lambda>ap. strcmp_eq cssid (ssid ap)) (hash_bucket tbl key) of
           None \<Rightarrow> Inr cbssid
         | Some ap \<Rightarrow> memcpy cbssid (bssid ap) ETH_ALEN)"

text \<open>
  \<^verbatim>\<open>
  static void owl_connect_routine(struct work_struct *w)
  {
      struct owl_context *owl = container_of(w, struct owl_context, ws_connect);
      struct owl_ndev_priv_context *item = NULL;
      if (mutex_lock_interruptible(&owl->lock))
          return;
      if (!is_valid_ssid(owl->connecting_ssid)) {
          item = list_first_entry(&owl->netintf_list, struct owl_ndev_priv_context, list);
          cfg80211_connect_timeout(item->ndev, NULL, NULL, 0, GFP_KERNEL,
                                   NL80211_TIMEOUT_SCAN);
      } else {
          item = list_first_entry(&owl->netintf_list, struct owl_ndev_priv_context, list);
          cfg80211_connect_result(item->ndev, NULL, NULL, 0, NULL, 0,
                                  WLAN_STATUS_SUCCESS, GFP_KERNEL);
      }
      owl->connecting_ssid[0] = 0;
      mutex_unlock(&owl->lock);
  }
  \<close>
\<close>

definition owl_connect_routine :: "kernel \<Rightarrow> bool \<Rightarrow> vwifi \<Rightarrow> error + vwifi" where
  "owl_connect_routine K interrupted st =
     (if interrupted then Inr st
      else
        let st = st\<lparr>lock := True\<rparr>;
            notified =
              (if \<not> is_valid_ssid K (ssid_table st) (connecting_ssid st)
               then case list_first_entry (netintf_list st) of
                      Inl e \<Rightarrow> Inl e
                    | Inr item \<Rightarrow>
                        Inr (st\<lparr>upcalls := upcalls st @
                                  [Connect_timeout (ndev item) None [] NL80211_TIMEOUT_SCAN]\<rparr>)
               else case list_first_entry (netintf_list st) of
                      Inl e \<Rightarrow> Inl e
                    | Inr item \<Rightarrow>
                        Inr (st\<lparr>upcalls := upcalls st @
                                  [Connect_result (ndev item) None [] [] WLAN_STATUS_SUCCESS]\<rparr>))
        in case notified of
             Inl e \<Rightarrow> Inl e
           | Inr st \<Rightarrow>
               case store_byte (connecting_ssid st) 0 0 of
                 Inl e \<Rightarrow> Inl e
               | Inr cssid \<Rightarrow> Inr (st\<lparr>connecting_ssid := cssid, lock := False\<rparr>))"

text \<open>
  \<open>struct cfg80211_connect_params\<close>, of which the driver reads \<open>ssid\<close> (a pointer to
  the SSID bytes; here the memory from it on) and \<open>ssid_len\<close>.
  \<^verbatim>\<open>
  static int owl_connect(struct wiphy *wiphy, struct net_device *dev,
                         struct cfg80211_connect_params *sme)
  {
      struct owl_context *owl = wiphy_get_owl_context(wiphy)->owl;
      size_t ssid_len =
          sme->ssid_len > SSID_MAX_LENGTH ? SSID_MAX_LENGTH : sme->ssid_len;
      if (mutex_lock_interruptible(&owl->lock))
          return -ERESTARTSYS;
      memcpy(owl->connecting_ssid, sme->ssid, ssid_len);
      owl->connecting_ssid[ssid_len] = 0;
      get_connecting_bssid(owl->connecting_ssid, owl->connecting_bssid);
      mutex_unlock(&owl->lock);
      if (!schedule_work(&owl->ws_connect))
          return -EBUSY;
      return 0;
  }
  \<close>
\<close>

record cfg80211_connect_params =
  sme_ssid :: "u8 list"
  sme_ssid_len :: nat

definition owl_connect ::
  "kernel \<Rightarrow> bool \<Rightarrow> cfg80211_connect_params \<Rightarrow> vwifi \<Rightarrow> error + int \<times> vwifi" where
  "owl_connect K interrupted sme st =
     (let ssid_len = (if sme_ssid_len sme > SSID_MAX_LENGTH then SSID_MAX_LENGTH
                      else sme_ssid_len sme)
      in if interrupted then Inr (- ERESTARTSYS, st)
         else
           let st = st\<lparr>lock := True\<rparr>
           in case memcpy (connecting_ssid st) (sme_ssid sme) ssid_len of
                Inl e \<Rightarrow> Inl e
              | Inr cssid \<Rightarrow>
                  case store_byte cssid ssid_len 0 of
                    Inl e \<Rightarrow> Inl e
                  | Inr cssid \<Rightarrow>
                      let st = st\<lparr>connecting_ssid := cssid\<rparr>
                      in case get_connecting_bssid K (ssid_table st) (connecting_ssid st)
                                (connecting_bssid st) of
                           Inl e \<Rightarrow> Inl e
                         | Inr cbssid \<Rightarrow>
                             let st = st\<lparr>connecting_bssid := cbssid\<rparr>;
                                 st = st\<lparr>lock := False\<rparr>;
                                 (queued, pending) = schedule_work (ws_connect st);
                                 st = st\<lparr>ws_connect := pending\<rparr>
                             in if \<not> queued then Inr (- EBUSY, st) else Inr (0, st))"

subsection \<open>Disconnect\<close>

text \<open>
  \<^verbatim>\<open>
  static void owl_disconnect_routine(struct work_struct *w)
  {
      ...
      if (mutex_lock_interruptible(&owl->lock))
          return;
      item = list_first_entry(&owl->netintf_list, struct owl_ndev_priv_context, list);
      cfg80211_disconnected(item->ndev, owl->disconnect_reason_code, NULL, 0,
                            true, GFP_KERNEL);
      owl->disconnect_reason_code = 0;
      mutex_unlock(&owl->lock);
  }

  static int owl_disconnect(struct wiphy *wiphy, struct net_device *dev, u16 reason_code)
  {
      struct owl_context *owl = wiphy_get_owl_context(wiphy)->owl;
      if (mutex_lock_interruptible(&owl->lock))
          return -ERESTARTSYS;
      owl->disconnect_reason_code = reason_code;
      mutex_unlock(&owl->lock);
      if (!schedule_work(&owl->ws_disconnect))
          return -EBUSY;
      return 0;
  }
  \<close>
\<close>

definition owl_disconnect_routine :: "bool \<Rightarrow> vwifi \<Rightarrow> error + vwifi" where
  "owl_disconnect_routine interrupted st =
     (if interrupted then Inr st
      else
        let st = st\<lparr>lock := True\<rparr>
        in case list_first_entry (netintf_list st) of
             Inl e \<Rightarrow> Inl e
           | Inr item \<Rightarrow>
               let st = st\<lparr>upcalls := upcalls st @
                          [Disconnected (ndev item) (disconnect_reason_code st) [] True]\<rparr>;
                   st = st\<lparr>disconnect_reason_code := 0\<rparr>
               in Inr (st\<lparr>lock := False\<rparr>))"

definition owl_disconnect :: "bool \<Rightarrow> u16 \<Rightarrow> vwifi \<Rightarrow> int \<times> vwifi" where
  "owl_disconnect interrupted reason_code st =
     (if interrupted then (- ERESTARTSYS, st)
      else
        let st = st\<lparr>lock := True\<rparr>;
            st = st\<lparr>disconnect_reason_code := reason_code\<rparr>;
            st = st\<lparr>lock := False\<rparr>;
            (queued, pending) = schedule_work (ws_disconnect st);
            st = st\<lparr>ws_disconnect := pending\<rparr>
        in if \<not> queued then (- EBUSY, st) else (0, st))"

subsection \<open>Scan request\<close>

text \<open>
  \<^verbatim>\<open>
  static int owl_scan(struct wiphy *wiphy, struct cfg80211_scan_request *request)
  {
      struct owl_context *owl = wiphy_get_owl_context(wiphy)->owl;
      if (mutex_lock_interruptible(&owl->lock))
          return -ERESTARTSYS;
      if (owl->scan_request) {
          mutex_unlock(&owl->lock);
          return -EBUSY;
      }
      owl->scan_request = request;
      mutex_unlock(&owl->lock);
      if (!schedule_work(&owl->ws_scan))
          return -EBUSY;
      return 0;
  }
  \<close>
  \<open>request\<close> is the identity of the scan descriptor, which the host stack never
  passes as \<open>NULL\<close>.
\<close>

definition owl_scan :: "bool \<Rightarrow> nat \<Rightarrow> vwifi \<Rightarrow> int \<times> vwifi" where
  "owl_scan interrupted request st =
     (if interrupted then (- ERESTARTSYS, st)
      else
        let st = st\<lparr>lock := True\<rparr>
        in if scan_request st \<noteq> None then (- EBUSY, st\<lparr>lock := False\<rparr>)
           else
             let st = st\<lparr>scan_request := Some request\<rparr>;
                 st = st\<lparr>lock := False\<rparr>;
                 (queued, pending) = schedule_work (ws_scan st);
                 st = st\<lparr>ws_scan := pending\<rparr>
             in if \<not> queued then (- EBUSY, st) else (0, st))"

subsection \<open>Data path\<close>

text \<open>
  An interface is addressed by its position \<open>i\<close> in \<open>netintf_list\<close> (its
  \<open>net_device\<close> pointer in C).
  \<^verbatim>\<open>
  static void owl_handle_rx(struct net_device *dev)
  {
      struct owl_ndev_priv_context *np = ndev_get_owl_context(dev);
      ...
      if (list_empty(&np->rx_queue)) {
          printk(KERN_NOTICE "owl rx: No packet in rx_queue\n");
          return;
      }
      pkt = list_first_entry(&np->rx_queue, struct owl_packet, list);
      ...
      skb = dev_alloc_skb(pkt->datalen + 2);
      if (!skb) {
          printk(KERN_NOTICE "owl rx: low on mem - packet dropped\n");
          np->stats.rx_dropped++;
          goto pkt_free;
      }
      skb_reserve(skb, 2); /* align IP on 16B boundary */
      memcpy(skb_put(skb, pkt->datalen), pkt->data, pkt->datalen);
      skb->dev = dev;
      skb->protocol = eth_type_trans(skb, dev);
      skb->ip_summed = CHECKSUM_UNNECESSARY; /* don't check it */
      netif_rx(skb);
      np->stats.rx_packets++;
      np->stats.rx_bytes += pkt->datalen;
  pkt_free:
      list_del(&pkt->list);
      kfree(pkt);
  }
  \<close>
\<close>

definition owl_handle_rx :: "kernel \<Rightarrow> nat \<Rightarrow> vwifi \<Rightarrow> error + vwifi" where
  "owl_handle_rx K i st =
     (if length (netintf_list st) \<le> i then Inl No_such_device
      else
        let np = netintf_list st ! i
        in case rx_queue np of
             [] \<Rightarrow> Inr (st\<lparr>klog := klog st @ [Rx_queue_empty]\<rparr>)
           | pkt # rest \<Rightarrow>
               let skb_ok = alloc_ok K (n_alloc st);
                   st = st\<lparr>n_alloc := Suc (n_alloc st)\<rparr>
               in if \<not> skb_ok
                  then
                    let st = st\<lparr>klog := klog st @ [Rx_low_on_mem]\<rparr>;
                        np = np\<lparr>stats := (stats np)\<lparr>rx_dropped := rx_dropped (stats np) + 1\<rparr>\<rparr>;
                        np = np\<lparr>rx_queue := rest\<rparr>
                    in Inr (st\<lparr>netintf_list := (netintf_list st)[i := np]\<rparr>)
                  else if sint (datalen pkt) < 0 then Inl Out_of_bounds
                  else
                    case memcpy (replicate (nat (sint (datalen pkt))) 0) (data pkt)
                           (nat (sint (datalen pkt))) of
                      Inl e \<Rightarrow> Inl e
                    | Inr payload \<Rightarrow>
                        let st = st\<lparr>upcalls := upcalls st @ [Netif_rx (ndev np) payload]\<rparr>;
                            np = np\<lparr>stats := (stats np)\<lparr>rx_packets := rx_packets (stats np) + 1\<rparr>\<rparr>;
                            np = np\<lparr>stats := (stats np)
                                   \<lparr>rx_bytes := rx_bytes (stats np) + scast (datalen pkt)\<rparr>\<rparr>;
                            np = np\<lparr>rx_queue := rest\<rparr>
                        in Inr (st\<lparr>netintf_list := (netintf_list st)[i := np]\<rparr>))"

text \<open>
  \<^verbatim>\<open>
  static netdev_tx_t owl_ndo_start_xmit(struct sk_buff *skb, struct net_device *dev)
  {
      struct owl_ndev_priv_context *np = ndev_get_owl_context(dev);
      struct owl_context *owl = ndev_get_owl_context(dev)->owl;
      struct owl_ndev_priv_context *dest_np = NULL;
      np->stats.tx_packets++;
      np->stats.tx_bytes += skb->len;
      struct owl_packet *pkt;
      pkt = kmalloc(sizeof(struct owl_packet), GFP_KERNEL);
      if (!pkt) {
          printk(KERN_NOTICE "Ran out of memory allocating packet pool\n");
          return NETDEV_TX_OK;
      }
      memcpy(&pkt->data, skb->data, skb->len);
      pkt->datalen = skb->len;
      dest_np = list_last_entry(&owl->netintf_list, struct owl_ndev_priv_context, list);
      if (dest_np->ndev == dev)
          dest_np = list_first_entry(&owl->netintf_list,
                                     struct owl_ndev_priv_context, list);
      ...
      list_add_tail(&pkt->list, &dest_np->rx_queue);
      kfree_skb(skb);
      owl_handle_rx(dest_np->ndev);
      return NETDEV_TX_OK;
  }
  \<close>
  \<open>skb\<close> is the frame: the \<open>skb->len\<close> bytes at \<open>skb->data\<close>. The packet comes from
  \<open>kmalloc\<close>, so its 1500 data bytes start as whatever the memory held.
\<close>

definition owl_ndo_start_xmit ::
  "kernel \<Rightarrow> u8 list \<Rightarrow> nat \<Rightarrow> vwifi \<Rightarrow> error + netdev_tx \<times> vwifi" where
  "owl_ndo_start_xmit K skb i st =
     (if length (netintf_list st) \<le> i then Inl No_such_device
      else
        let np = netintf_list st ! i;
            dev = ndev np;
            np = np\<lparr>stats := (stats np)\<lparr>tx_packets := tx_packets (stats np) + 1\<rparr>\<rparr>;
            np = np\<lparr>stats := (stats np)
                   \<lparr>tx_bytes := tx_bytes (stats np) + of_nat (length skb)\<rparr>\<rparr>;
            st = st\<lparr>netintf_list := (netintf_list st)[i := np]\<rparr>;
            pkt_ok = alloc_ok K (n_alloc st);
            st = st\<lparr>n_alloc := Suc (n_alloc st)\<rparr>
        in if \<not> pkt_ok
           then Inr (NETDEV_TX_OK, st\<lparr>klog := klog st @ [Tx_out_of_memory]\<rparr>)
           else
             case memcpy (map (uninit K) [0..<ETH_DATA_LEN]) skb (length skb) of
               Inl e \<Rightarrow> Inl e
             | Inr pkt_data \<Rightarrow>
                 let pkt = \<lparr>datalen = of_nat (length skb), data = pkt_data\<rparr>;
                     j = length (netintf_list st) - 1;
                     j = (if ndev (netintf_list st ! j) = dev then 0 else j);
                     dest_np = netintf_list st ! j;
                     dest_np = dest_np\<lparr>rx_queue := rx_queue dest_np @ [pkt]\<rparr>;
                     st = st\<lparr>netintf_list := (netintf_list st)[j := dest_np]\<rparr>
                 in case owl_handle_rx K j st of
                      Inl e \<Rightarrow> Inl e
                    | Inr st \<Rightarrow> Inr (NETDEV_TX_OK, st))"

subsection \<open>Module initialisation\<close>

text \<open>
  \<^verbatim>\<open>
  static int __init vwifi_init(void)
  {
      g_ctx = owl_create_context();
      if (!g_ctx)
          return 1;
      mutex_init(&g_ctx->lock);
      INIT_WORK(&g_ctx->ws_connect, owl_connect_routine);
      g_ctx->connecting_ssid[0] = 0;
      INIT_WORK(&g_ctx->ws_disconnect, owl_disconnect_routine);
      g_ctx->disconnect_reason_code = 0;
      INIT_WORK(&g_ctx->ws_scan, owl_scan_routine);
      g_ctx->scan_request = NULL;
      INIT_WORK(&g_ctx->ws_scan_timeout, owl_scan_timeout_work);
      timer_setup(&g_ctx->scan_timeout, owl_scan_timeout, 0);
      return 0;
  }
  \<close>
  \<open>owl_create_context\<close> registers the wiphy and the two interfaces with the kernel; the
  model takes whether it succeeded (\<open>created\<close>) and, if so, starts from
  \<open>fresh_context\<close>: a context that \<open>kmalloc\<close> returned uninitialised, with the two
  interfaces in the list in the order of their creation (\<open>alloc_netdev\<close> zeroes their
  private data), and the fields that \<open>vwifi_init\<close> sets. The static \<open>ssid_table\<close>
  starts with its 16 buckets empty. \<open>None\<close> is the \<^verbatim>\<open>return 1\<close>.
\<close>

definition zero_stats :: net_device_stats where
  "zero_stats = \<lparr>rx_packets = 0, tx_packets = 0, rx_bytes = 0, tx_bytes = 0, rx_dropped = 0\<rparr>"

definition fresh_context :: "kernel \<Rightarrow> u8 list \<Rightarrow> vwifi" where
  "fresh_context K ssid_list_param =
     \<lparr>ssid_list = ssid_list_param,
      ssid_table = replicate 16 [],
      lock = False,
      connecting_ssid = (map (uninit K) [0..<SSID_MAX_LENGTH + 1])[0 := 0],
      connecting_bssid = map (uninit K) [0..<ETH_ALEN],
      disconnect_reason_code = 0,
      scan_request = None,
      netintf_list = [\<lparr>ndev = 0, stats = zero_stats, rx_queue = []\<rparr>,
                      \<lparr>ndev = 1, stats = zero_stats, rx_queue = []\<rparr>],
      ws_connect = False, ws_disconnect = False, ws_scan = False, ws_scan_timeout = False,
      upcalls = [], klog = [], n_alloc = 0, n_random = 0, n_clock = 0\<rparr>"

definition vwifi_init :: "kernel \<Rightarrow> bool \<Rightarrow> u8 list \<Rightarrow> vwifi option" where
  "vwifi_init K created ssid_list_param =
     (if \<not> created then None else Some (fresh_context K ssid_list_param))"

text \<open>\<^verbatim>\<open>#define DEFAULT_SSID_LIST "[MyHomeWiFi]"\<close>, with its terminator.\<close>

definition DEFAULT_SSID_LIST :: "u8 list" where
  "DEFAULT_SSID_LIST = [0x5B, 0x4D, 0x79, 0x48, 0x6F, 0x6D, 0x65, 0x57, 0x69, 0x46, 0x69, 0x5D, 0]"

subsection \<open>The BSSID derivation in closed form\<close>

text \<open>
  Two closed forms, to compare the code with. \<open>spec_bssid\<close> is the derivation as the
  specification words it: the hash starts from \<open>0x074D4B97A0F8F697\<close>, each byte is
  xored in, the product with \<open>0x5BD1E9955BD1E995\<close> is xored with itself shifted right
  by 47, and the result is laid out little-endian, lowest byte first.
  \<open>derived_bssid\<close> differs in the start value, which is the decimal constant of the
  source (\<open>525201411107845655 = 0x0749E3E6989DF617\<close>), in the byte order (bits 40 to 47
  first, the lowest byte last) and in making the conversion of the \<^verbatim>\<open>char\<close> explicit.
\<close>

definition spec_hash :: "u8 list \<Rightarrow> u64" where
  "spec_hash S =
     foldl (\<lambda>h c. let h1 = (h XOR ucast c) * 0x5BD1E9955BD1E995
                   in h1 XOR drop_bit 47 h1) 0x074D4B97A0F8F697 S"

definition spec_bssid :: "u8 list \<Rightarrow> u8 list" where
  "spec_bssid S =
     (let h = spec_hash S
      in [(ucast h AND 0xFE) OR 0x02, ucast (drop_bit 8 h), ucast (drop_bit 16 h),
          ucast (drop_bit 24 h), ucast (drop_bit 32 h), ucast (drop_bit 40 h)])"

definition derived_hash :: "bool \<Rightarrow> u8 list \<Rightarrow> u64" where
  "derived_hash sc S =
     foldl (\<lambda>h c. let h1 = (h XOR (if sc then scast c else ucast c)) * 0x5BD1E9955BD1E995
                   in h1 XOR drop_bit 47 h1) 0x0749E3E6989DF617 S"

definition derived_bssid :: "bool \<Rightarrow> u8 list \<Rightarrow> u8 list" where
  "derived_bssid sc S =
     (let h = derived_hash sc S
      in [(ucast (drop_bit 40 h) AND 0xFE) OR 0x02, ucast (drop_bit 32 h), ucast (drop_bit 24 h),
          ucast (drop_bit 16 h), ucast (drop_bit 8 h), ucast h])"

text \<open>The default SSID, \<^verbatim>\<open>MyHomeWiFi\<close>.\<close>

definition MyHomeWiFi :: "u8 list" where
  "MyHomeWiFi = [0x4D, 0x79, 0x48, 0x6F, 0x6D, 0x65, 0x57, 0x69, 0x46, 0x69]"

subsection \<open>Well-formed states\<close>

text \<open>
  What holds of every entry that \<open>update_ssids\<close> puts into bucket \<open>i\<close>: its \<open>ssid\<close>
  array holds a non-empty, terminated string, the bucket is the one of the string's
  hash, and the \<open>bssid\<close> is the one derived from the string.
\<close>

definition entry_wf :: "bool \<Rightarrow> nat \<Rightarrow> ap_info_entry_t \<Rightarrow> bool" where
  "entry_wf sc i ap =
     (length (ssid ap) = SSID_MAX_LENGTH \<and> terminated (ssid ap) \<and> c_str (ssid ap) \<noteq> [] \<and>
      hash_min (ucast (murmurhash sc (ssid ap))) = i \<and>
      generate_bssid_with_ssid sc (replicate ETH_ALEN 0) (ssid ap) = Inr (bssid ap))"

definition table_wf :: "bool \<Rightarrow> ap_info_entry_t list list \<Rightarrow> bool" where
  "table_wf sc tbl =
     (length tbl = 16 \<and> (\<forall>i \<in> {0..<16}. \<forall>ap \<in> set (tbl ! i). entry_wf sc i ap))"

text \<open>The AP directory contains the SSID \<open>S\<close>: some entry, in whatever bucket, holds
  the string \<open>S\<close>.\<close>

definition ap_directory_contains :: "ap_info_entry_t list list \<Rightarrow> u8 list \<Rightarrow> bool" where
  "ap_directory_contains tbl S = (\<exists>ap \<in> set (hash_entries tbl). c_str (ssid ap) = S)"

text \<open>
  \<open>connecting_ssid\<close> is a 33-byte array that holds a terminated string (of at most 32
  bytes, then); \<open>connecting_bssid\<close> has its 6 bytes.
\<close>

definition cssid_ok :: "vwifi \<Rightarrow> bool" where
  "cssid_ok st =
     (length (connecting_ssid st) = SSID_MAX_LENGTH + 1 \<and> terminated (connecting_ssid st) \<and>
      length (c_str (connecting_ssid st)) \<le> SSID_MAX_LENGTH)"

definition driver_inv :: "kernel \<Rightarrow> vwifi \<Rightarrow> bool" where
  "driver_inv K st =
     (table_wf (char_signed K) (ssid_table st) \<and> cssid_ok st \<and>
      length (connecting_bssid st) = ETH_ALEN \<and> length (netintf_list st) = 2 \<and>
      distinct (map ndev (netintf_list st)) \<and>
      (\<forall>np \<in> set (netintf_list st). rx_queue np = []) \<and> \<not> lock st)"

text \<open>Two states with the same control fields: all but the table, the log and the
  allocation count.\<close>

definition same_control :: "vwifi \<Rightarrow> vwifi \<Rightarrow> bool" where
  "same_control st st' =
     (upcalls st' = upcalls st \<and> scan_request st' = scan_request st \<and> lock st' = lock st \<and>
      connecting_ssid st' = connecting_ssid st \<and> connecting_bssid st' = connecting_bssid st \<and>
      netintf_list st' = netintf_list st \<and> ssid_list st' = ssid_list st \<and>
      disconnect_reason_code st' = disconnect_reason_code st \<and>
      ws_connect st' = ws_connect st \<and> ws_disconnect st' = ws_disconnect st \<and>
      ws_scan st' = ws_scan st \<and> ws_scan_timeout st' = ws_scan_timeout st \<and>
      n_random st' = n_random st \<and> n_clock st' = n_clock st)"

subsection \<open>What the claims speak of\<close>

text \<open>A BSS report whose signal is \<open>rand_int(-100, -30) * 100\<close> for one of the values
  of the random source, with the bounds that follow.\<close>

definition bss_signal_ok :: "kernel \<Rightarrow> upcall \<Rightarrow> bool" where
  "bss_signal_ok K u =
     (\<exists>b k v. u = Inform_bss b \<and> rand_int (random_u32 K k) (- 100) (- 30) = Inr v \<and>
        - 100 \<le> sint v \<and> sint v \<le> - 30 \<and> signal b = v * 100 \<and>
        sint (signal b) = sint v * 100 \<and> - 10000 \<le> sint (signal b) \<and> sint (signal b) \<le> - 3000)"

definition is_scan_done :: "upcall \<Rightarrow> bool" where
  "is_scan_done u = (case u of Scan_done _ _ \<Rightarrow> True | _ \<Rightarrow> False)"

subsection \<open>Example inputs\<close>

text \<open>
  A kernel in which every allocation succeeds, one in which only the first fails, and
  one in which only the second fails; the state after loading the module with the default
  parameter, that state after a scan was requested, after this scan has completed, and
  after a \<open>connect\<close> to \<^verbatim>\<open>MyHomeWiFi\<close> that follows.
\<close>

definition example_kernel :: kernel where
  "example_kernel =
     \<lparr>char_signed = False, alloc_ok = (\<lambda>k. True), random_u32 = (\<lambda>k. 0x9E3779B9 * of_nat k + 7),
      boottime_ns = (\<lambda>k. 5000000), uninit = (\<lambda>k. 0xAA)\<rparr>"

definition first_alloc_fails :: kernel where
  "first_alloc_fails = example_kernel\<lparr>alloc_ok := (\<lambda>k. k \<noteq> 0)\<rparr>"

definition second_alloc_fails :: kernel where
  "second_alloc_fails = example_kernel\<lparr>alloc_ok := (\<lambda>k. k \<noteq> 1)\<rparr>"

definition loaded_state :: vwifi where
  "loaded_state = fresh_context example_kernel DEFAULT_SSID_LIST"

definition scanning_state :: vwifi where
  "scanning_state = snd (owl_scan False 1 loaded_state)"

definition scanned_state :: vwifi where
  "scanned_state =
     (case owl_scan_timeout_work example_kernel False scanning_state of
        Inr st \<Rightarrow> st | Inl e \<Rightarrow> scanning_state)"

definition connecting_state :: vwifi where
  "connecting_state =
     (case owl_connect example_kernel False \<lparr>sme_ssid = MyHomeWiFi, sme_ssid_len = 10\<rparr>
             scanned_state of
        Inr (rc, st) \<Rightarrow> st | Inl e \<Rightarrow> scanned_state)"

text \<open>
  Configuration strings, with their terminators: two tokens \<^verbatim>\<open>[a][b]\<close>; one token of 33
  bytes; one token of 32 bytes.
\<close>

definition two_ssids :: "u8 list" where
  "two_ssids = [0x5B, 0x61, 0x5D, 0x5B, 0x62, 0x5D, 0]"

definition long_ssid_33 :: "u8 list" where
  "long_ssid_33 = 0x5B # replicate 33 0x41 @ [0x5D, 0]"

definition long_ssid_32 :: "u8 list" where
  "long_ssid_32 = 0x5B # replicate 32 0x41 @ [0x5D, 0]"


section \<open>Properties\<close>

subsection \<open>The hash reads a C string\<close>

lemma murmur_loop_string:
  "0 \<notin> set S \<Longrightarrow> murmur_loop sc h (S @ 0 # rest) = foldl (murmur_step sc) h S"
  by (induction S arbitrary: h) auto

lemma murmur_loop_c_str: "murmur_loop sc h buf = murmur_loop sc h (c_str buf)"
  by (induction buf arbitrary: h) (auto simp: c_str_def)

lemma murmurhash_c_str: "murmurhash sc buf = murmurhash sc (c_str buf)"
  unfolding murmurhash_def by (rule murmur_loop_c_str)

lemma murmurhash_derived:
  assumes "0 \<notin> set S"
  shows "murmurhash sc (S @ 0 # rest) = derived_hash sc S"
proof -
  have "murmur_step sc =
    (\<lambda>h c. let h1 = (h XOR (if sc then scast c else ucast c)) * 0x5BD1E9955BD1E995
            in h1 XOR drop_bit 47 h1)"
    by (intro ext) (simp add: murmur_step_def char_to_u64_def Let_def)
  with assms show ?thesis
    by (simp add: murmurhash_def murmur_loop_string derived_hash_def)
qed

subsection \<open>The six bytes\<close>

lemma ucast_low_byte: "(ucast (u AND 0xff :: u64) :: u8) = ucast u"
proof -
  have "u AND 0xff = take_bit 8 u"
    by (simp add: take_bit_eq_mask mask_eq_exp_minus_1)
  then show ?thesis
    by (intro bit_word_eqI) (auto simp: bit_simps)
qed

lemma etheraddr_loop_6:
  "etheraddr_loop 6 u [a0, a1, a2, a3, a4, a5] =
     [ucast (drop_bit 40 u), ucast (drop_bit 32 u), ucast (drop_bit 24 u),
      ucast (drop_bit 16 u), ucast (drop_bit 8 u), ucast u]"
  by (simp add: eval_nat_numeral ucast_low_byte drop_bit_drop_bit)

lemma length_6: "length xs = 6 \<Longrightarrow> \<exists>a0 a1 a2 a3 a4 a5. xs = [a0, a1, a2, a3, a4, a5]"
  by (auto simp: eval_nat_numeral length_Suc_conv)

lemma generate_bssid_bytes:
  assumes "length result = ETH_ALEN"
  shows "generate_bssid_with_ssid sc result ssid_mem =
     Inr (let h = murmurhash sc ssid_mem
      in [(ucast (drop_bit 40 h) AND 0xFE) OR 0x02, ucast (drop_bit 32 h), ucast (drop_bit 24 h),
          ucast (drop_bit 16 h), ucast (drop_bit 8 h), ucast h])"
proof -
  from assms obtain a0 a1 a2 a3 a4 a5 where r: "result = [a0, a1, a2, a3, a4, a5]"
    using length_6 [of result] by (auto simp: ETH_ALEN_def)
  show ?thesis
    unfolding generate_bssid_with_ssid_def u64_to_ether_addr_def r
    by (simp add: ETH_ALEN_def etheraddr_loop_6 Let_def)
qed

lemma bit0_clear: "\<not> bit ((x AND 0xFE) OR 0x02 :: u8) 0"
  by (simp add: bit_simps)

lemma bit1_set: "bit ((x AND 0xFE) OR 0x02 :: u8) (Suc 0)"
  by (simp add: bit_simps)

text \<open>
  C5, as amended. For every SSID \<open>S\<close> (a string: no zero byte), held in memory with its
  terminator, and every 6-byte result buffer, \<open>generate_bssid_with_ssid\<close> returns
  \<open>derived_bssid S\<close>: the hash starts from \<open>0x0749E3E6989DF617\<close>, takes for each byte
  the xor with the byte (converted as a \<^verbatim>\<open>char\<close>), the product with
  \<open>0x5BD1E9955BD1E995\<close> and the xor with itself shifted right by 47; its low 48 bits
  are written with the highest byte first, and byte 0 is masked with \<open>0xFE\<close> and ORed
  with \<open>0x02\<close>.
\<close>

theorem bssid_derivation:
  assumes "0 \<notin> set S" "length result = ETH_ALEN"
  shows "generate_bssid_with_ssid sc result (S @ 0 # rest) = Inr (derived_bssid sc S)"
  using assms by (simp add: generate_bssid_bytes murmurhash_derived derived_bssid_def)

theorem bssid_derivation_witness:
  "0 \<notin> set MyHomeWiFi \<and> length (replicate 6 (0::u8)) = ETH_ALEN \<and>
   generate_bssid_with_ssid False (replicate 6 0) (MyHomeWiFi @ 0 # []) =
     Inr [0x26, 0x05, 0xD1, 0x60, 0x34, 0xC8]"
proof -
  have a: "0 \<notin> set MyHomeWiFi" by (simp add: MyHomeWiFi_def)
  have b: "length (replicate 6 (0::u8)) = ETH_ALEN" by (simp add: ETH_ALEN_def)
  have c: "derived_bssid False MyHomeWiFi = [0x26, 0x05, 0xD1, 0x60, 0x34, 0xC8]"
    by code_simp
  show ?thesis
    using a b c bssid_derivation [OF a b, of False "[]"] by simp
qed

text \<open>
  C5 as the specification states it fails already on the default SSID: the code derives
  \<open>26:05:d1:60:34:c8\<close>, the stated derivation gives \<open>62:d2:38:53:98:93\<close>. The start
  value of the hash is not the stated one (the hash of the empty string is the start
  value).
\<close>

theorem bssid_derivation_as_stated_counterexample:
  "generate_bssid_with_ssid False (replicate 6 0) (MyHomeWiFi @ [0]) \<noteq> Inr (spec_bssid MyHomeWiFi) \<and>
   generate_bssid_with_ssid True (replicate 6 0) (MyHomeWiFi @ [0]) \<noteq> Inr (spec_bssid MyHomeWiFi) \<and>
   murmurhash False [0] = 0x0749E3E6989DF617 \<and>
   spec_hash [] = 0x074D4B97A0F8F697"
  by code_simp

text \<open>
  C6. Whatever the result buffer held before and whatever follows the string in memory,
  the derivation returns the same six bytes for the same string, and byte 0 has bit 0
  clear (unicast) and bit 1 set (locally administered).
\<close>

theorem bssid_unicast_local_pure:
  assumes "length r1 = ETH_ALEN" "length r2 = ETH_ALEN" "c_str m1 = c_str m2"
  shows "\<exists>b. generate_bssid_with_ssid sc r1 m1 = Inr b \<and>
             generate_bssid_with_ssid sc r2 m2 = Inr b \<and>
             length b = ETH_ALEN \<and> \<not> bit (b ! 0) 0 \<and> bit (b ! 0) 1"
proof -
  have "murmurhash sc m1 = murmurhash sc m2"
    using assms(3) murmurhash_c_str [of sc m1] murmurhash_c_str [of sc m2] by simp
  then show ?thesis
    using assms(1,2) by (simp add: generate_bssid_bytes Let_def bit0_clear bit1_set ETH_ALEN_def)
qed

theorem bssid_unicast_local_pure_witness:
  "length (replicate 6 (0::u8)) = ETH_ALEN \<and> length (replicate 6 (0xAA::u8)) = ETH_ALEN \<and>
   c_str (MyHomeWiFi @ [0]) = c_str (MyHomeWiFi @ [0, 0x41, 0x42]) \<and>
   (\<exists>b. generate_bssid_with_ssid False (replicate 6 0) (MyHomeWiFi @ [0]) = Inr b \<and>
        generate_bssid_with_ssid False (replicate 6 0xAA) (MyHomeWiFi @ [0, 0x41, 0x42]) = Inr b \<and>
        length b = ETH_ALEN \<and> \<not> bit (b ! 0) 0 \<and> bit (b ! 0) 1)"
proof -
  have a: "length (replicate 6 (0::u8)) = ETH_ALEN" "length (replicate 6 (0xAA::u8)) = ETH_ALEN"
    by (simp_all add: ETH_ALEN_def)
  have c: "c_str (MyHomeWiFi @ [0]) = c_str (MyHomeWiFi @ [0, 0x41, 0x42])"
    by (simp add: c_str_def MyHomeWiFi_def)
  show ?thesis
    using a c bssid_unicast_local_pure [OF a c, of False] by simp
qed

subsection \<open>The AP table is well-formed\<close>

lemma hash_min_less: "hash_min key < 16"
proof -
  let ?w = "key * 0x61C88647"
  have "unat ?w < 2 ^ 32"
    using unsigned_less [of ?w, where 'a = nat] by simp
  then have "unat ?w div 2 ^ 28 < 16" by simp
  moreover have "unat (drop_bit 28 ?w) = drop_bit 28 (unat ?w)"
    by (rule unat_drop_bit_eq)
  moreover have "drop_bit 28 (unat ?w) = unat ?w div 2 ^ 28"
    by (rule drop_bit_eq_div)
  ultimately show ?thesis
    unfolding hash_min_def by (simp only:)
qed

lemma table_wf_hash_add:
  assumes "table_wf sc tbl" "entry_wf sc (hash_min key) ap"
  shows "table_wf sc (hash_add tbl ap key)"
  using assms hash_min_less [of key]
  by (auto simp: table_wf_def hash_add_def nth_list_update)

lemma token_prefix:
  "takeWhile (\<lambda>c. c \<noteq> 0 \<and> \<not> is_delim c) s = take (strcspn_delims s) s"
  unfolding strcspn_delims_def by (rule takeWhile_eq_take)

lemma token_nonzero: "0 \<notin> set (take (strcspn_delims s) s)"
  using set_takeWhileD [of 0 "\<lambda>c. c \<noteq> 0 \<and> \<not> is_delim c" s] by (auto simp flip: token_prefix)

lemma length_token: "length (take (strcspn_delims s) s) = strcspn_delims s"
  by (simp add: strcspn_delims_def length_takeWhile_le)

lemma c_str_nonzero_append: "0 \<notin> set xs \<Longrightarrow> c_str (xs @ ys) = xs @ c_str ys"
  by (induction xs) (auto simp: c_str_def)

lemma c_str_zeros [simp]: "c_str (replicate k 0) = []"
  by (cases k) (simp_all add: c_str_def)

lemma replicate_update_zero: "(replicate k (0::u8))[0 := 0] = replicate k 0"
  by (cases k) simp_all

lemma c_str_token:
  "take (strcspn_delims s) (c_str s @ replicate (strcspn_delims s) 0) = take (strcspn_delims s) s"
proof -
  let ?n = "strcspn_delims s"
  have "s = take ?n s @ drop ?n s" by simp
  then have "c_str s = take ?n s @ c_str (drop ?n s)"
    using c_str_nonzero_append [OF token_nonzero [of s], of "drop ?n s"] by simp
  then show ?thesis
    using length_token [of s] by simp
qed

lemma build_token:
  assumes "strncpy (replicate SSID_MAX_LENGTH 0) s (strcspn_delims s) = Inr t1"
    and "store_byte t1 (strcspn_delims s) 0 = Inr token"
  shows "strcspn_delims s < SSID_MAX_LENGTH \<and>
         token = take (strcspn_delims s) s @ replicate (SSID_MAX_LENGTH - strcspn_delims s) 0"
proof -
  let ?n = "strcspn_delims s"
  from assms(1) have n: "?n \<le> SSID_MAX_LENGTH"
    and t1: "t1 = take ?n s @ replicate (SSID_MAX_LENGTH - ?n) 0"
    unfolding strncpy_def c_str_token by (auto split: if_splits)
  from assms(2) t1 have lt: "?n < SSID_MAX_LENGTH" and tok: "token = t1[?n := 0]"
    using length_token [of s] by (auto simp: store_byte_def split: if_splits)
  have "t1[?n := 0] = t1"
    unfolding t1 using lt length_token [of s] by (simp add: list_update_append replicate_update_zero)
  with lt tok t1 show ?thesis by simp
qed

lemma c_str_padded: "0 \<notin> set xs \<Longrightarrow> 0 < k \<Longrightarrow> c_str (xs @ replicate k 0) = xs"
  by (simp add: c_str_nonzero_append)

lemma insert_step_wf:
  assumes "strncpy (replicate SSID_MAX_LENGTH 0) s (strcspn_delims s) = Inr t1"
    and "store_byte t1 (strcspn_delims s) 0 = Inr token"
    and "strcspn_delims s \<noteq> 0"
    and "strncpy (replicate SSID_MAX_LENGTH 0) token (strcspn_delims s) = Inr ap_ssid"
    and "generate_bssid_with_ssid sc (replicate ETH_ALEN 0) token = Inr b1"
    and "memcpy (replicate ETH_ALEN 0) b1 ETH_ALEN = Inr ap_bssid"
  shows "entry_wf sc (hash_min (ucast (murmurhash sc token))) \<lparr>bssid = ap_bssid, ssid = ap_ssid\<rparr>"
proof -
  let ?n = "strcspn_delims s"
  from build_token [OF assms(1,2)]
  have lt: "?n < SSID_MAX_LENGTH"
    and tok: "token = take ?n s @ replicate (SSID_MAX_LENGTH - ?n) 0" by simp_all
  have cs: "c_str token = take ?n s"
    unfolding tok using lt by (intro c_str_padded token_nonzero) simp
  have "take ?n (c_str token @ replicate ?n 0) = take ?n s"
    unfolding cs using length_token [of s] by simp
  then have "ap_ssid = token"
    using assms(4) lt unfolding strncpy_def by (auto simp: tok split: if_splits)
  moreover have "length token = SSID_MAX_LENGTH"
    unfolding tok using lt length_token [of s] by simp
  moreover have "terminated token"
    unfolding tok terminated_def using lt by simp
  moreover have "c_str token \<noteq> []"
    using assms(3) length_token [of s] unfolding cs by auto
  moreover have "length b1 = ETH_ALEN"
    using assms(5) generate_bssid_bytes [of "replicate ETH_ALEN 0" sc token]
    by (auto simp: Let_def ETH_ALEN_def)
  then have "ap_bssid = b1"
    using assms(6) by (auto simp: memcpy_def split: if_splits)
  ultimately show ?thesis
    using assms(5) by (simp add: entry_wf_def)
qed

text \<open>One run of the loop body, flattened.\<close>

lemma update_ssids_body_unfold:
  fixes s :: "u8 list"
  defines "s1 \<equiv> drop (strspn_delims s) s"
  defines "n \<equiv> strcspn_delims s1"
  defines "token \<equiv> take n s1 @ replicate (SSID_MAX_LENGTH - n) 0"
  shows "update_ssids_body K s st =
     (if n = 0 then Inr (Continue s1 st)
      else if SSID_MAX_LENGTH \<le> n then Inl Out_of_bounds
      else if list_ex (\<lambda>ap. strncmp_eq token (ssid ap) n)
                (hash_bucket (ssid_table st) (ucast (murmurhash (char_signed K) token)))
      then Inr (Continue (drop n s1) st)
      else if \<not> alloc_ok K (n_alloc st)
      then Inr (Return (st\<lparr>n_alloc := Suc (n_alloc st),
                            klog := klog st @ [Alloc_ap_failed (take n s1)]\<rparr>))
      else case generate_bssid_with_ssid (char_signed K) (replicate ETH_ALEN 0) token of
             Inl e \<Rightarrow> Inl e
           | Inr b \<Rightarrow>
               Inr (Continue (drop n s1)
                 (st\<lparr>n_alloc := Suc (n_alloc st),
                     ssid_table := hash_add (ssid_table st) \<lparr>bssid = b, ssid = token\<rparr>
                       (ucast (murmurhash (char_signed K) token))\<rparr>)))"
proof -
  have len: "length (take n s1) = n"
    unfolding n_def by (rule length_token)
  have cp1: "strncpy (replicate SSID_MAX_LENGTH 0) s1 n =
      (if n \<le> SSID_MAX_LENGTH then Inr token else Inl Out_of_bounds)"
    unfolding strncpy_def n_def c_str_token token_def by simp
  have st1: "n \<le> SSID_MAX_LENGTH \<Longrightarrow> store_byte token n 0 =
      (if n < SSID_MAX_LENGTH then Inr token else Inl Out_of_bounds)"
    unfolding store_byte_def token_def using len
    by (simp add: list_update_append replicate_update_zero)
  have cs: "n < SSID_MAX_LENGTH \<Longrightarrow> c_str token = take n s1"
    unfolding token_def n_def by (intro c_str_padded token_nonzero) simp
  have cp2: "strncpy (replicate SSID_MAX_LENGTH 0) token n = Inr token" if "n < SSID_MAX_LENGTH"
  proof -
    have "take n (c_str token @ replicate n 0) = take n s1"
      unfolding cs [OF that] using len by simp
    with that show ?thesis
      unfolding strncpy_def by (simp add: token_def)
  qed
  have mc: "\<And>b. generate_bssid_with_ssid (char_signed K) (replicate ETH_ALEN 0) token = Inr b
      \<Longrightarrow> memcpy (replicate ETH_ALEN 0) b ETH_ALEN = Inr b"
    using generate_bssid_bytes [of "replicate ETH_ALEN 0" "char_signed K" token]
    by (auto simp: memcpy_def Let_def ETH_ALEN_def)
  show ?thesis
  proof (cases "n = 0")
    case True
    then show ?thesis
      unfolding update_ssids_body_def Let_def s1_def [symmetric] n_def [symmetric] by simp
  next
    case nz: False
    show ?thesis
    proof (cases "n < SSID_MAX_LENGTH")
      case False
      show ?thesis
      proof (cases "n = SSID_MAX_LENGTH")
        case True
        with st1 have "store_byte token n 0 = Inl Out_of_bounds" by simp
        with nz True show ?thesis
          unfolding update_ssids_body_def Let_def s1_def [symmetric] n_def [symmetric] cp1
          by (simp del: replicate_eq_replicate) 
      next
        case gt: False
        with False nz show ?thesis
          unfolding update_ssids_body_def Let_def s1_def [symmetric] n_def [symmetric] cp1
          by simp
      qed
    next
      case True
      then have le: "n \<le> SSID_MAX_LENGTH" by simp
      show ?thesis
        unfolding update_ssids_body_def Let_def s1_def [symmetric] n_def [symmetric] cp1
        using nz True le
        by (simp add: st1 cs cp2 mc split: sum.splits)
    qed
  qed
qed

lemma update_ssids_loop_invariant:
  assumes "update_ssids_loop K s st = Inr st'" and "P st"
    and "\<And>s st r. P st \<Longrightarrow> update_ssids_body K s st = Inr r \<Longrightarrow> P (flow_state r)"
  shows "P st'"
  using assms
proof (induction K s st rule: update_ssids_loop.induct)
  case (1 K s st)
  note step = "1.prems"(3)
  show ?case
  proof (cases "s = [] \<or> hd s = 0")
    case True
    with "1.prems"(1,2) show ?thesis by simp
  next
    case False
    with "1.prems"(1) obtain r where r: "update_ssids_body K s st = Inr r"
      by (cases "update_ssids_body K s st") auto
    from step [OF "1.prems"(2) r] have P: "P (flow_state r)" .
    show ?thesis
    proof (cases r)
      case (Continue s2 st2)
      with False r "1.prems"(1) have l: "update_ssids_loop K s2 st2 = Inr st'" by simp
      from P Continue have "P st2" by (simp add: flow_state_def)
      from "1.IH" [OF False r Continue l this step] show ?thesis .
    next
      case (Return st2)
      with False r "1.prems"(1) P show ?thesis by (simp add: flow_state_def)
    qed
  qed
qed

lemma update_ssids_body_cases:
  assumes "update_ssids_body K s st = Inr r"
  obtains (same) s' where "r = Continue s' st"
  | (failed) tok where
      "r = Return (st\<lparr>n_alloc := Suc (n_alloc st), klog := klog st @ [Alloc_ap_failed tok]\<rparr>)"
  | (inserted) s' ap key where
      "r = Continue s' (st\<lparr>n_alloc := Suc (n_alloc st),
                            ssid_table := hash_add (ssid_table st) ap key\<rparr>)"
      "entry_wf (char_signed K) (hash_min key) ap"
proof -
  define s1 where "s1 = drop (strspn_delims s) s"
  define n where "n = strcspn_delims s1"
  define token where "token = take n s1 @ replicate (SSID_MAX_LENGTH - n) 0"
  define key :: u32 where "key = ucast (murmurhash (char_signed K) token)"
  note eq = update_ssids_body_unfold [of K s st, folded s1_def, folded n_def, folded token_def,
      folded key_def]
  show thesis
  proof (cases "n = 0")
    case True
    with eq assms have "r = Continue s1 st" by simp
    then show thesis by (rule same)
  next
    case nz: False
    show thesis
    proof (cases "SSID_MAX_LENGTH \<le> n")
      case True
      with nz eq assms show thesis by simp
    next
      case lt: False
      show thesis
      proof (cases "list_ex (\<lambda>ap. strncmp_eq token (ssid ap) n) (hash_bucket (ssid_table st) key)")
        case True
        with nz lt eq assms have "r = Continue (drop n s1) st" by simp
        then show thesis by (rule same)
      next
        case nex: False
        show thesis
        proof (cases "alloc_ok K (n_alloc st)")
          case False
          with nz lt nex eq assms
          have "r = Return (st\<lparr>n_alloc := Suc (n_alloc st),
                               klog := klog st @ [Alloc_ap_failed (take n s1)]\<rparr>)" by simp
          then show thesis by (rule failed)
        next
          case True
          with nz lt nex eq assms obtain b
            where b: "generate_bssid_with_ssid (char_signed K) (replicate ETH_ALEN 0) token = Inr b"
              and r: "r = Continue (drop n s1)
                 (st\<lparr>n_alloc := Suc (n_alloc st),
                     ssid_table := hash_add (ssid_table st) \<lparr>bssid = b, ssid = token\<rparr> key\<rparr>)"
            by (cases "generate_bssid_with_ssid (char_signed K) (replicate ETH_ALEN 0) token") auto
          have "c_str token = take n s1"
            unfolding token_def n_def using lt [unfolded n_def]
            by (intro c_str_padded token_nonzero) simp
          moreover have "take n s1 \<noteq> []"
            using nz length_token [of s1] unfolding n_def by auto
          moreover have "length token = SSID_MAX_LENGTH"
            using lt length_token [of s1] unfolding token_def n_def by simp
          moreover have "terminated token"
            unfolding terminated_def token_def using lt by simp
          ultimately have "entry_wf (char_signed K) (hash_min key) \<lparr>bssid = b, ssid = token\<rparr>"
            using b by (simp add: entry_wf_def key_def)
          with r show thesis by (rule inserted)
        qed
      qed
    qed
  qed
qed

lemma update_ssids_loop_table_wf:
  assumes "update_ssids_loop K s st = Inr st'" "table_wf (char_signed K) (ssid_table st)"
  shows "table_wf (char_signed K) (ssid_table st')"
proof (rule update_ssids_loop_invariant
    [OF assms(1), where P = "\<lambda>x. table_wf (char_signed K) (ssid_table x)"], goal_cases)
  case 1
  from assms(2) show ?case .
next
  case (2 s2 st2 r)
  from 2(2) show ?case
    by (cases rule: update_ssids_body_cases)
       (use 2(1) in \<open>simp_all add: flow_state_def table_wf_hash_add\<close>)
qed

lemma update_ssids_loop_same_control:
  assumes "update_ssids_loop K s st = Inr st'"
  shows "same_control st st'"
proof (rule update_ssids_loop_invariant [OF assms, where P = "same_control st"], goal_cases)
  case 1
  show ?case by (simp add: same_control_def)
next
  case (2 s2 st2 r)
  from 2(2) show ?case
    by (cases rule: update_ssids_body_cases)
       (use 2(1) in \<open>simp_all add: flow_state_def same_control_def\<close>)
qed

subsection \<open>The range of \<open>rand_int\<close>\<close>

lemma sint_small: "- (2 ^ 31) \<le> k \<Longrightarrow> k < 2 ^ 31 \<Longrightarrow> sint (word_of_int k :: 32 word) = k"
  by (simp add: sint_sbintrunc' signed_take_bit_int_eq_self)

lemma c_abs_of_int: "- (2 ^ 31) < k \<Longrightarrow> k < 2 ^ 31 \<Longrightarrow> c_abs (word_of_int k) = word_of_int \<bar>k\<bar>"
  by (simp add: c_abs_def sint_small)

lemma smod_71_range: "- 71 < (a::int) smod 71 \<and> a smod 71 < 71"
  using smod_int_range [of 71 a] by simp

lemma rand_int_value:
  "rand_int r (- 100) (- 30) = Inr (word_of_int (\<bar>sint r smod 71\<bar> - 100))"
proof -
  have m: "(- 30 :: 32 word) - (- 100) + 1 = 71" by simp
  have nz: "(71 :: 32 word) \<noteq> 0" by simp
  have s71: "sint (71 :: 32 word) = 71" by simp
  from smod_71_range [of "sint r"]
  have abs: "c_abs (word_of_int (sint r smod 71)) = word_of_int \<bar>sint r smod 71\<bar>"
    by (intro c_abs_of_int) auto
  show ?thesis
    unfolding rand_int_def Let_def m
    by (simp add: abs del: of_int_abs)
qed

lemma rand_int_range:
  "\<exists>v. rand_int r (- 100) (- 30) = Inr v \<and> - 100 \<le> sint v \<and> sint v \<le> - 30
       \<and> sint (v * 100) = sint v * 100"
proof -
  let ?k = "\<bar>sint r smod 71\<bar> - 100"
  from smod_71_range [of "sint r"] have k: "- 100 \<le> ?k" "?k \<le> - 30" by auto
  have s: "sint (word_of_int ?k :: 32 word) = ?k"
    using k by (intro sint_small) auto
  have "(word_of_int ?k :: 32 word) * 100 = word_of_int (?k * 100)" by simp
  moreover have "sint (word_of_int (?k * 100) :: 32 word) = ?k * 100"
    using k by (intro sint_small) auto
  ultimately have "sint ((word_of_int ?k :: 32 word) * 100) = ?k * 100" by simp
  with s k show ?thesis
    unfolding rand_int_value by (simp del: of_int_abs of_int_diff)
qed

subsection \<open>Lookup in a well-formed table\<close>

lemma bucket_subset: "length tbl = 16 \<Longrightarrow> set (hash_bucket tbl key) \<subseteq> set (hash_entries tbl)"
proof -
  assume "length tbl = 16"
  with hash_min_less [of key] have "hash_bucket tbl key \<in> set tbl"
    by (simp add: hash_bucket_def)
  then show ?thesis
    by (auto simp: hash_entries_def)
qed

lemma is_valid_ssid_iff:
  assumes "table_wf (char_signed K) tbl"
  shows "is_valid_ssid K tbl cssid \<longleftrightarrow> ap_directory_contains tbl (c_str cssid)"
proof
  assume "is_valid_ssid K tbl cssid"
  then obtain ap where "ap \<in> set (hash_bucket tbl (ucast (murmurhash (char_signed K) cssid)))"
    and "c_str cssid = c_str (ssid ap)"
    by (auto simp: is_valid_ssid_def list_ex_iff strcmp_eq_def)
  with assms bucket_subset show "ap_directory_contains tbl (c_str cssid)"
    by (fastforce simp: ap_directory_contains_def table_wf_def)
next
  assume "ap_directory_contains tbl (c_str cssid)"
  then obtain ap b where ap: "b \<in> set tbl" "ap \<in> set b" "c_str (ssid ap) = c_str cssid"
    by (auto simp: ap_directory_contains_def hash_entries_def)
  from ap(1) obtain i where i: "i < length tbl" "b = tbl ! i"
    by (auto simp: in_set_conv_nth)
  with assms ap(2) have wf: "entry_wf (char_signed K) i ap" and len: "length tbl = 16"
    by (auto simp: table_wf_def)
  have "murmurhash (char_signed K) cssid = murmurhash (char_signed K) (ssid ap)"
    using murmurhash_c_str [of "char_signed K" cssid] murmurhash_c_str [of "char_signed K" "ssid ap"] ap(3)
    by simp
  with wf have "hash_min (ucast (murmurhash (char_signed K) cssid)) = i"
    by (simp add: entry_wf_def)
  with i ap(2) have "ap \<in> set (hash_bucket tbl (ucast (murmurhash (char_signed K) cssid)))"
    by (simp add: hash_bucket_def)
  with ap(3) show "is_valid_ssid K tbl cssid"
    by (auto simp: is_valid_ssid_def list_ex_iff strcmp_eq_def intro!: bexI [of _ ap])
qed

lemma c_str_cleared: "buf \<noteq> [] \<Longrightarrow> c_str (buf[0 := 0]) = []"
  by (cases buf) (simp_all add: c_str_def)

subsection \<open>The BSS reports of a scan\<close>

lemma bss_signal_okI:
  assumes "rand_int (random_u32 K k) (- 100) (- 30) = Inr v" "signal b = v * 100"
  shows "bss_signal_ok K (Inform_bss b)"
proof -
  from rand_int_range [of "random_u32 K k"] assms(1)
  have "- 100 \<le> sint v" "sint v \<le> - 30" "sint (v * 100) = sint v * 100" by auto
  with assms show ?thesis
    unfolding bss_signal_ok_def by (intro exI [of _ b] exI [of _ k] exI [of _ v]) simp
qed

text \<open>One entry reported.\<close>

lemma inform_bss_loop_Cons:
  assumes "inform_bss_loop K (ap # aps) st = Inr st'"
  obtains b st1 where "inform_bss_loop K aps st1 = Inr st'"
    and "bss_signal_ok K (Inform_bss b)"
    and "upcalls st1 = upcalls st @ [Inform_bss b]"
    and "ssid_table st1 = ssid_table st" and "klog st1 = klog st"
    and "same_control (st\<lparr>upcalls := upcalls st1, n_random := n_random st1, n_clock := n_clock st1\<rparr>) st1"
proof -
  from assms obtain v where v: "rand_int (random_u32 K (n_random st)) (- 100) (- 30) = Inr v"
    by (cases "rand_int (random_u32 K (n_random st)) (- 100) (- 30)") auto
  define b where "b = \<lparr>chan_center_freq = 2437, scan_width_mhz = 20,
                                  signal = v * 100, report_bssid = bssid ap,
                                  tsf = boottime_ns K (n_clock st) div 1000,
                                  capability = WLAN_CAPABILITY_ESS, beacon_interval = 100,
                                  ie = [WLAN_EID_SSID, of_nat (length (c_str (ssid ap)))] @
                                         take (length (c_str (ssid ap))) (ssid ap)\<rparr>"
  define st1 where "st1 = st\<lparr>n_random := Suc (n_random st), n_alloc := Suc (n_alloc st),
      n_clock := Suc (n_clock st), upcalls := upcalls st @ [Inform_bss b]\<rparr>"
  from assms v have t: "terminated (ssid ap)" and a: "alloc_ok K (n_alloc st)"
    by (auto simp: Let_def split: if_splits)
  with assms v have "inform_bss_loop K aps st1 = Inr st'"
    by (simp add: Let_def st1_def b_def)
  moreover have "bss_signal_ok K (Inform_bss b)"
    using v by (rule bss_signal_okI) (simp add: b_def)
  ultimately show thesis
    by (rule that) (simp_all add: st1_def same_control_def)
qed

lemma inform_bss_loop_reports:
  "inform_bss_loop K aps st = Inr st' \<Longrightarrow>
     ssid_table st' = ssid_table st \<and> klog st' = klog st \<and>
     same_control (st\<lparr>upcalls := upcalls st', n_random := n_random st', n_clock := n_clock st'\<rparr>) st' \<and>
     (\<exists>new. upcalls st' = upcalls st @ new \<and> length new = length aps \<and>
        (\<forall>u \<in> set new. bss_signal_ok K u))"
proof (induction aps arbitrary: st)
  case Nil
  then show ?case by (simp add: same_control_def)
next
  case (Cons ap aps)
  from Cons.prems obtain b st1 where l: "inform_bss_loop K aps st1 = Inr st'"
    and ok: "bss_signal_ok K (Inform_bss b)"
    and u: "upcalls st1 = upcalls st @ [Inform_bss b]"
    and t: "ssid_table st1 = ssid_table st" "klog st1 = klog st"
    and c: "same_control (st\<lparr>upcalls := upcalls st1, n_random := n_random st1, n_clock := n_clock st1\<rparr>) st1"
    by (rule inform_bss_loop_Cons)
  from Cons.IH [OF l] obtain new where n: "upcalls st' = upcalls st1 @ new" "length new = length aps"
      "\<forall>u \<in> set new. bss_signal_ok K u"
    and t': "ssid_table st' = ssid_table st1" "klog st' = klog st1"
    and c': "same_control (st1\<lparr>upcalls := upcalls st', n_random := n_random st', n_clock := n_clock st'\<rparr>) st'"
    by auto
  have "upcalls st' = upcalls st @ (Inform_bss b # new) \<and>
        length (Inform_bss b # new) = length (ap # aps) \<and>
        (\<forall>u \<in> set (Inform_bss b # new). bss_signal_ok K u)"
    using n u ok by simp
  then have "\<exists>new. upcalls st' = upcalls st @ new \<and> length new = length (ap # aps) \<and>
        (\<forall>u \<in> set new. bss_signal_ok K u)" ..
  moreover have "same_control (st\<lparr>upcalls := upcalls st', n_random := n_random st', n_clock := n_clock st'\<rparr>) st'"
    using c c' by (simp add: same_control_def)
  moreover have "ssid_table st' = ssid_table st" "klog st' = klog st"
    using t t' by simp_all
  ultimately show ?case by simp
qed

subsection \<open>Scan completion leaves the control state alone\<close>

lemma hash_empty_entries: "hash_empty tbl \<Longrightarrow> hash_entries tbl = []"
  by (auto simp: hash_empty_def hash_entries_def)

lemma inform_dummy_bss_cases:
  assumes "inform_dummy_bss K st = Inr st'"
  obtains st1 where "update_ssids_loop K (ssid_list st) st = Inr st1"
    and "inform_bss_loop K (hash_entries (ssid_table st1)) st1 = Inr st'"
proof -
  from assms obtain st1 where u: "update_ssids_loop K (ssid_list st) st = Inr st1"
    and r: "if hash_empty (ssid_table st1) then st' = st1
            else inform_bss_loop K (hash_entries (ssid_table st1)) st1 = Inr st'"
    by (cases "update_ssids_loop K (ssid_list st) st")
       (auto simp: inform_dummy_bss_def update_ssids_def split: if_splits)
  from r have "inform_bss_loop K (hash_entries (ssid_table st1)) st1 = Inr st'"
    by (cases "hash_empty (ssid_table st1)") (simp_all add: hash_empty_entries)
  with u that show thesis by blast
qed

lemma inform_dummy_bss_reports:
  assumes "inform_dummy_bss K st = Inr st'"
  shows "scan_request st' = scan_request st" "lock st' = lock st"
    "connecting_ssid st' = connecting_ssid st" "connecting_bssid st' = connecting_bssid st"
    "netintf_list st' = netintf_list st"
    "\<exists>new. upcalls st' = upcalls st @ new \<and>
           length new = length (hash_entries (ssid_table st')) \<and>
           (\<forall>u \<in> set new. bss_signal_ok K u)"
    "table_wf (char_signed K) (ssid_table st) \<Longrightarrow> table_wf (char_signed K) (ssid_table st')"
proof -
  from assms obtain st1 where u: "update_ssids_loop K (ssid_list st) st = Inr st1"
    and i: "inform_bss_loop K (hash_entries (ssid_table st1)) st1 = Inr st'"
    by (rule inform_dummy_bss_cases)
  note c1 = update_ssids_loop_same_control [OF u, unfolded same_control_def]
  note r = inform_bss_loop_reports [OF i, unfolded same_control_def]
  from c1 r show "scan_request st' = scan_request st" "lock st' = lock st"
    "connecting_ssid st' = connecting_ssid st" "connecting_bssid st' = connecting_bssid st"
    "netintf_list st' = netintf_list st"
    by simp_all
  from r c1 show "\<exists>new. upcalls st' = upcalls st @ new \<and>
           length new = length (hash_entries (ssid_table st')) \<and>
           (\<forall>u \<in> set new. bss_signal_ok K u)"
    by simp
  show "table_wf (char_signed K) (ssid_table st')" if "table_wf (char_signed K) (ssid_table st)"
    using update_ssids_loop_table_wf [OF u that] r by simp
qed

lemma bss_signal_ok_not_scan_done: "bss_signal_ok K u \<Longrightarrow> \<not> is_scan_done u"
  by (auto simp: bss_signal_ok_def is_scan_done_def)

subsection \<open>Signal strength\<close>

text \<open>
  C9. For every value \<open>r\<close> of the random source, \<open>rand_int(-100, -30)\<close> returns a value in
  the inclusive range from \<open>-100\<close> to \<open>-30\<close>. When \<open>inform_dummy_bss\<close> returns, what it
  added to the upcalls is one BSS report per entry of the table, and each report's signal
  is such a value times 100, without overflow, hence between \<open>-10000\<close> and \<open>-3000\<close>.
\<close>

theorem bss_signal_range:
  "(\<exists>v. rand_int r (- 100) (- 30) = Inr v \<and> - 100 \<le> sint v \<and> sint v \<le> - 30) \<and>
   (inform_dummy_bss K st = Inr st' \<longrightarrow>
      (\<exists>new. upcalls st' = upcalls st @ new \<and>
         length new = length (hash_entries (ssid_table st')) \<and>
         (\<forall>u \<in> set new. bss_signal_ok K u)))"
  using rand_int_range [of r] inform_dummy_bss_reports(6) [of K st st'] by blast

theorem bss_signal_range_witness:
  "\<exists>st'. inform_dummy_bss example_kernel scanning_state = Inr st' \<and>
     (\<exists>new. upcalls st' = upcalls scanning_state @ new \<and> length new = 1 \<and>
         (\<forall>u \<in> set new. bss_signal_ok example_kernel u))"
proof -
  have "case inform_dummy_bss example_kernel scanning_state of
          Inr st' \<Rightarrow> length (hash_entries (ssid_table st')) = 1 | Inl e \<Rightarrow> False"
    by code_simp
  then obtain st' where e: "inform_dummy_bss example_kernel scanning_state = Inr st'"
    and l: "length (hash_entries (ssid_table st')) = 1"
    by (auto split: sum.splits)
  from bss_signal_range [of 0 example_kernel scanning_state st'] e l
  show ?thesis by auto
qed

subsection \<open>The scan-complete work\<close>

text \<open>
  C3. The handler first reports the BSSes; \<open>st1\<close> is the state when that is done, with
  \<open>scan_request\<close> as before and no scan-done upcall among the reports. If the mutex is
  acquired, the one further upcall is the scan-done, with the request still the staged
  one and \<open>aborted = false\<close>, and the state returned has \<open>scan_request\<close> cleared and the
  mutex released. If the wait is interrupted, the handler returns \<open>st1\<close>: no scan-done
  upcall, \<open>scan_request\<close> not cleared.
\<close>

theorem scan_done_then_cleared:
  assumes "inform_dummy_bss K st = Inr st1"
  shows "owl_scan_timeout_work K False st =
           Inr (st1\<lparr>upcalls := upcalls st1 @ [Scan_done (scan_request st) False],
                    scan_request := None, lock := False\<rparr>) \<and>
         owl_scan_timeout_work K True st = Inr st1 \<and>
         scan_request st1 = scan_request st \<and>
         filter is_scan_done (upcalls st1) = filter is_scan_done (upcalls st)"
proof -
  from inform_dummy_bss_reports(6) [OF assms] obtain new
    where "upcalls st1 = upcalls st @ new" "\<forall>u \<in> set new. \<not> is_scan_done u"
    using bss_signal_ok_not_scan_done by blast
  then have "filter is_scan_done (upcalls st1) = filter is_scan_done (upcalls st)"
    by simp
  with assms inform_dummy_bss_reports(1) [OF assms] show ?thesis
    by (simp add: owl_scan_timeout_work_def)
qed

theorem scan_done_then_cleared_witness:
  "\<exists>st1. inform_dummy_bss example_kernel scanning_state = Inr st1 \<and>
     scan_request scanning_state = Some 1 \<and>
     owl_scan_timeout_work example_kernel False scanning_state =
           Inr (st1\<lparr>upcalls := upcalls st1 @ [Scan_done (Some 1) False],
                    scan_request := None, lock := False\<rparr>) \<and>
     owl_scan_timeout_work example_kernel True scanning_state = Inr st1 \<and>
     scan_request st1 = Some 1"
proof -
  have "case inform_dummy_bss example_kernel scanning_state of Inr st' \<Rightarrow> True | Inl e \<Rightarrow> False"
    by code_simp
  then obtain st1 where e: "inform_dummy_bss example_kernel scanning_state = Inr st1"
    by (auto split: sum.splits)
  have r: "scan_request scanning_state = Some 1"
    by code_simp
  from scan_done_then_cleared [OF e] r e show ?thesis by auto
qed

subsection \<open>The connect work\<close>

text \<open>
  C1. In a state with a well-formed table, at least one interface and a terminated
  \<open>connecting_ssid\<close>, a run of the connect work that acquires the mutex adds exactly one
  upcall, on the first interface of the list: the connect result with status success, no
  BSSID and no IEs if some entry of the AP directory holds the string in
  \<open>connecting_ssid\<close>, the connect timeout with the scan reason otherwise. Afterwards
  \<open>connecting_ssid\<close> holds the empty string and the mutex is released; nothing else
  changes.
\<close>

theorem connect_routine_dichotomy:
  assumes "table_wf (char_signed K) (ssid_table st)" and "netintf_list st \<noteq> []"
    and "cssid_ok st"
  shows "\<exists>st'. owl_connect_routine K False st = Inr st' \<and>
           upcalls st' = upcalls st @
             [if ap_directory_contains (ssid_table st) (c_str (connecting_ssid st))
              then Connect_result (ndev (hd (netintf_list st))) None [] [] WLAN_STATUS_SUCCESS
              else Connect_timeout (ndev (hd (netintf_list st))) None [] NL80211_TIMEOUT_SCAN] \<and>
           c_str (connecting_ssid st') = [] \<and> cssid_ok st' \<and> \<not> lock st' \<and>
           st' = st\<lparr>upcalls := upcalls st', connecting_ssid := connecting_ssid st', lock := False\<rparr>"
proof -
  from assms(2) obtain item rest where l: "netintf_list st = item # rest"
    by (cases "netintf_list st") auto
  from assms(3) have ne: "connecting_ssid st \<noteq> []" and len: "length (connecting_ssid st) = 33"
    by (auto simp: cssid_ok_def SSID_MAX_LENGTH_def)
  have ok: "cssid_ok (st\<lparr>connecting_ssid := (connecting_ssid st)[0 := 0]\<rparr>)"
    using ne len by (cases "connecting_ssid st") (auto simp: cssid_ok_def terminated_def c_str_def SSID_MAX_LENGTH_def)
  show ?thesis
    using ne ok
    by (simp add: owl_connect_routine_def is_valid_ssid_iff [OF assms(1)] l list_first_entry_def
        store_byte_def c_str_cleared cssid_ok_def)
qed

theorem connect_routine_dichotomy_witness:
  "table_wf (char_signed example_kernel) (ssid_table connecting_state) \<and>
   netintf_list connecting_state \<noteq> [] \<and> cssid_ok connecting_state \<and>
   c_str (connecting_ssid connecting_state) = MyHomeWiFi \<and>
   (\<exists>st'. owl_connect_routine example_kernel False connecting_state = Inr st' \<and>
      upcalls st' = upcalls connecting_state @ [Connect_result 0 None [] [] WLAN_STATUS_SUCCESS] \<and>
      c_str (connecting_ssid st') = [])"
proof -
  have a: "table_wf (char_signed example_kernel) (ssid_table connecting_state)"
    by code_simp
  have b: "netintf_list connecting_state \<noteq> []"
    by code_simp
  have c: "cssid_ok connecting_state"
    by code_simp
  have d: "ap_directory_contains (ssid_table connecting_state)
             (c_str (connecting_ssid connecting_state))"
    by code_simp
  have e: "ndev (hd (netintf_list connecting_state)) = 0"
    by code_simp
  have f: "c_str (connecting_ssid connecting_state) = MyHomeWiFi"
    by code_simp
  from connect_routine_dichotomy [OF a b c] a b c d e f show ?thesis
    by auto
qed

subsection \<open>The scan request\<close>

text \<open>
  C2. A call whose wait for the mutex is interrupted returns \<open>-ERESTARTSYS\<close> and changes
  nothing. A call that acquires the mutex while \<open>scan_request\<close> is set returns
  \<open>-EBUSY\<close> with the mutex released and the state as it was. A call that acquires it
  while \<open>scan_request\<close> is null stores the descriptor, releases the mutex and submits
  the scan-start work: it returns 0, or \<open>-EBUSY\<close> when the work item was pending
  already, the descriptor staying stored.
\<close>

theorem scan_busy_or_accepted:
  "(owl_scan True request st = (- ERESTARTSYS, st)) \<and>
   (\<not> lock st \<and> scan_request st \<noteq> None \<longrightarrow> owl_scan False request st = (- EBUSY, st)) \<and>
   (scan_request st = None \<longrightarrow>
      owl_scan False request st =
        (if ws_scan st then - EBUSY else 0,
         st\<lparr>scan_request := Some request, ws_scan := True, lock := False\<rparr>))"
  by (auto simp: owl_scan_def schedule_work_def Let_def)

theorem scan_busy_or_accepted_witness:
  "\<not> lock scanning_state \<and> scan_request scanning_state \<noteq> None \<and>
   owl_scan False 2 scanning_state = (- EBUSY, scanning_state) \<and>
   scan_request loaded_state = None \<and> \<not> ws_scan loaded_state \<and>
   owl_scan False 1 loaded_state =
     (0, loaded_state\<lparr>scan_request := Some 1, ws_scan := True, lock := False\<rparr>)"
proof -
  have a: "\<not> lock scanning_state" "scan_request scanning_state \<noteq> None"
    by code_simp+
  have b: "scan_request loaded_state = None" "\<not> ws_scan loaded_state"
    by code_simp+
  from scan_busy_or_accepted [of 2 scanning_state] scan_busy_or_accepted [of 1 loaded_state] a b
  show ?thesis by simp
qed

end
